theory Spec2Isabelle
  imports Main "HOL-Library.Log_Nat" "HOL-Library.AList"
begin

section \<open>Python strings\<close>

text \<open>
  The model is exact for ASCII utterances. \<open>str.isspace\<close> holds below 128 for the
  characters 9 to 13, 28 to 31 and 32; \<open>str.lower\<close> moves \<open>A\<close> to \<open>Z\<close> by 32.
\<close>

definition ord :: "char \<Rightarrow> nat" where
  "ord c = of_char c"

definition is_space :: "char \<Rightarrow> bool" where
  "is_space c = ((9 \<le> ord c \<and> ord c \<le> 13) \<or> (28 \<le> ord c \<and> ord c \<le> 32))"

definition is_digit :: "char \<Rightarrow> bool" where
  "is_digit c = (48 \<le> ord c \<and> ord c \<le> 57)"

definition is_upper :: "char \<Rightarrow> bool" where
  "is_upper c = (65 \<le> ord c \<and> ord c \<le> 90)"

definition is_lower :: "char \<Rightarrow> bool" where
  "is_lower c = (97 \<le> ord c \<and> ord c \<le> 122)"

definition lower_char :: "char \<Rightarrow> char" where
  "lower_char c = (if is_upper c then char_of (ord c + 32) else c)"

definition lower :: "string \<Rightarrow> string" where
  "lower s = map lower_char s"

text \<open>\<open>s.strip()\<close>: whitespace removed at both ends.\<close>

definition lstrip :: "string \<Rightarrow> string" where
  "lstrip s = dropWhile is_space s"

definition rstrip :: "string \<Rightarrow> string" where
  "rstrip s = rev (dropWhile is_space (rev s))"

definition strip :: "string \<Rightarrow> string" where
  "strip s = rstrip (lstrip s)"

text \<open>\<open>s.split()\<close>: the maximal runs of non-whitespace characters.\<close>

fun split_ws :: "string \<Rightarrow> string \<Rightarrow> string list" where
  "split_ws cur [] = (if cur = [] then [] else [rev cur])"
| "split_ws cur (c # s) =
     (if is_space c then (if cur = [] then split_ws [] s else rev cur # split_ws [] s)
      else split_ws (c # cur) s)"

definition split :: "string \<Rightarrow> string list" where
  "split s = split_ws [] s"

fun starts_with :: "string \<Rightarrow> string \<Rightarrow> bool" where
  "starts_with [] s = True"
| "starts_with (a # w) [] = False"
| "starts_with (a # w) (c # s) = (a = c \<and> starts_with w s)"

text \<open>\<open>w in s\<close> on strings: \<open>w\<close> occurs in \<open>s\<close> as a substring.\<close>

fun str_in :: "string \<Rightarrow> string \<Rightarrow> bool" where
  "str_in w [] = (w = [])"
| "str_in w (c # s) = (starts_with w (c # s) \<or> str_in w s)"

text \<open>
  \<open>s.split(w, 1)\<close> for a non-empty \<open>w\<close>: the text before the first occurrence of
  \<open>w\<close> and the text after it, or \<open>None\<close> when \<open>w\<close> does not occur (the list
  returned by Python then has the single element \<open>s\<close>).
\<close>

fun split_once :: "string \<Rightarrow> string \<Rightarrow> (string \<times> string) option" where
  "split_once w [] = None"
| "split_once w (c # s) =
     (if starts_with w (c # s) then Some ([], drop (length w) (c # s))
      else (case split_once w s of
              None \<Rightarrow> None
            | Some (before, after) \<Rightarrow> Some (c # before, after)))"

text \<open>\<open>sep.join(xs)\<close>.\<close>

fun join :: "string \<Rightarrow> string list \<Rightarrow> string" where
  "join sep [] = []"
| "join sep [x] = x"
| "join sep (x # y # xs) = x @ sep @ join sep (y # xs)"

section \<open>Regular expressions\<close>

text \<open>
  The fragment of Python's \<open>re\<close> syntax that the patterns of the controller use, with
  the backtracking semantics of \<open>re\<close>: alternatives are tried left to right, a greedy
  quantifier tries the longest repetition first and a lazy one the shortest, and
  \<open>re.search\<close> returns the first success from the leftmost starting position.
\<close>

datatype citem = Ch char | Rng char char | Space | Digit

fun item_has :: "citem \<Rightarrow> char \<Rightarrow> bool" where
  "item_has (Ch a) c = (c = a)"
| "item_has (Rng a b) c = (ord a \<le> ord c \<and> ord c \<le> ord b)"
| "item_has Space c = is_space c"
| "item_has Digit c = is_digit c"

text \<open>\<open>Dot\<close> is \<open>.\<close> (any character but the newline); \<open>OneOf\<close> is a bracket class.\<close>

datatype cset = Dot | OneOf "citem list"

fun cset_has :: "cset \<Rightarrow> char \<Rightarrow> bool" where
  "cset_has Dot c = (c \<noteq> CHR 0x0A)"
| "cset_has (OneOf items) c = list_ex (\<lambda>i. item_has i c) items"

text \<open>
  \<open>Rep greedy lo hi cs\<close> repeats a one-character class between \<open>lo\<close> and \<open>hi\<close>
  times (\<open>+\<close>, \<open>+?\<close>, \<open>{m,n}\<close>); \<open>Grp i r\<close> is the \<open>i\<close>-th capturing group;
  \<open>Opt\<close> is a greedy \<open>(?:r)?\<close> and \<open>Star\<close> a greedy \<open>(?:r)*\<close>; \<open>WordB\<close> is
  \<open>\b\<close> and \<open>Eos\<close> is \<open>$\<close>.
\<close>

datatype regex =
    Lit string
  | One cset
  | Rep bool nat "nat option" cset
  | Cat regex regex
  | Alt regex regex
  | Grp nat regex
  | Opt regex
  | Star regex
  | WordB
  | Eos

text \<open>
  A state of the matcher: the character before the current position (for \<open>\b\<close>), the
  text still to be read, and the groups captured so far.
\<close>

datatype mstate = MState (prev: "char option") (rest: string) (caps: "string option list")

fun advance :: "nat \<Rightarrow> mstate \<Rightarrow> mstate" where
  "advance n (MState p r c) =
     (if n = 0 then MState p r c else MState (Some (r ! (n - 1))) (drop n r) c)"

definition rep_counts :: "bool \<Rightarrow> nat \<Rightarrow> nat option \<Rightarrow> nat \<Rightarrow> nat list" where
  "rep_counts greedy lo hi avail =
     (let top = (case hi of None \<Rightarrow> avail | Some h \<Rightarrow> min h avail);
          up = [lo ..< Suc top]
      in if greedy then rev up else up)"

definition is_word :: "char \<Rightarrow> bool" where
  "is_word c = (is_digit c \<or> is_lower c \<or> is_upper c \<or> c = CHR ''_'')"

definition at_boundary :: "char option \<Rightarrow> string \<Rightarrow> bool" where
  "at_boundary p r =
     ((case p of None \<Rightarrow> False | Some c \<Rightarrow> is_word c) \<noteq>
      (case r of [] \<Rightarrow> False | c # _ \<Rightarrow> is_word c))"

text \<open>
  \<open>ms r s\<close> lists the states in which a match of \<open>r\<close> started in \<open>s\<close> can end, in
  the order in which the backtracking matcher finds them.
\<close>

function ms :: "regex \<Rightarrow> mstate \<Rightarrow> mstate list" where
  "ms (Lit w) s = (if starts_with w (rest s) then [advance (length w) s] else [])"
| "ms (One cs) s =
     (case rest s of [] \<Rightarrow> [] | c # r \<Rightarrow> if cset_has cs c then [advance 1 s] else [])"
| "ms (Rep greedy lo hi cs) s =
     map (\<lambda>n. advance n s)
       (rep_counts greedy lo hi (length (takeWhile (cset_has cs) (rest s))))"
| "ms (Cat a b) s = concat (map (ms b) (ms a s))"
| "ms (Alt a b) s = ms a s @ ms b s"
| "ms (Grp i r) s =
     map (\<lambda>t. MState (prev t) (rest t)
                 ((caps t)[i - 1 := Some (take (length (rest s) - length (rest t)) (rest s))]))
       (ms r s)"
| "ms (Opt r) s = ms r s @ [s]"
| "ms (Star r) s =
     concat (map (\<lambda>t. if length (rest t) < length (rest s) then ms (Star r) t else [])
               (ms r s)) @ [s]"
| "ms WordB s = (if at_boundary (prev s) (rest s) then [s] else [])"
| "ms Eos s = (if rest s = [] \<or> rest s = [CHR 0x0A] then [s] else [])"
  by pat_completeness auto
termination
  by (relation "measures [\<lambda>(r, s). size r, \<lambda>(r, s). length (rest s)]") auto

text \<open>The number of capturing groups of a pattern (\<open>re.Pattern.groups\<close>).\<close>

fun ngroups :: "regex \<Rightarrow> nat" where
  "ngroups (Cat a b) = max (ngroups a) (ngroups b)"
| "ngroups (Alt a b) = max (ngroups a) (ngroups b)"
| "ngroups (Grp i r) = max i (ngroups r)"
| "ngroups (Opt r) = ngroups r"
| "ngroups (Star r) = ngroups r"
| "ngroups (Lit w) = 0"
| "ngroups (One cs) = 0"
| "ngroups (Rep g lo hi cs) = 0"
| "ngroups WordB = 0"
| "ngroups Eos = 0"

text \<open>
  A match object: \<open>group0\<close> is \<open>match.group(0)\<close> and \<open>groups\<close> is
  \<open>match.groups()\<close>, with \<open>None\<close> for a group that took no part in the match.
\<close>

datatype rmatch = RMatch (group0: string) (groups: "string option list")

fun search_from :: "regex \<Rightarrow> char option \<Rightarrow> string \<Rightarrow> rmatch option" where
  "search_from r p s =
     (case ms r (MState p s (replicate (ngroups r) None)) of
        t # _ \<Rightarrow> Some (RMatch (take (length s - length (rest t)) s) (caps t))
      | [] \<Rightarrow> (case s of [] \<Rightarrow> None | c # s' \<Rightarrow> search_from r (Some c) s'))"

definition re_search :: "regex \<Rightarrow> string \<Rightarrow> rmatch option" where
  "re_search r s = search_from r None s"

text \<open>
  \<open>re.findall\<close> for a pattern without capturing groups: the matched texts, each search
  resuming where the previous match ended (one character further after an empty match).
\<close>

function findall_from :: "regex \<Rightarrow> char option \<Rightarrow> string \<Rightarrow> string list" where
  "findall_from r p s =
     (case ms r (MState p s (replicate (ngroups r) None)) of
        t # _ \<Rightarrow>
          if length (rest t) < length s
          then take (length s - length (rest t)) s # findall_from r (prev t) (rest t)
          else [] # (case s of [] \<Rightarrow> [] | c # s' \<Rightarrow> findall_from r (Some c) s')
      | [] \<Rightarrow> (case s of [] \<Rightarrow> [] | c # s' \<Rightarrow> findall_from r (Some c) s'))"
  by pat_completeness auto
termination
  by (relation "measure (\<lambda>(r, p, s). length s)") auto

definition re_findall :: "regex \<Rightarrow> string \<Rightarrow> string list" where
  "re_findall r s = findall_from r None s"

text \<open>Writing patterns: a sequence, and an alternation of literal texts.\<close>

fun cat :: "regex list \<Rightarrow> regex" where
  "cat [] = Lit []"
| "cat [r] = r"
| "cat (r # q # rs) = Cat r (cat (q # rs))"

fun lits :: "string list \<Rightarrow> regex" where
  "lits [] = Lit []"
| "lits [w] = Lit w"
| "lits (w # v # ws) = Alt (Lit w) (lits (v # ws))"

text \<open>\<open>\s+\<close>, \<open>\s\<close>, \<open>\d+\<close>, \<open>(.+?)\<close> and \<open>(.+)\<close> as group \<open>i\<close>.\<close>

definition sp :: regex where
  "sp = Rep True 1 None (OneOf [Space])"

definition lazy :: "nat \<Rightarrow> regex" where
  "lazy i = Grp i (Rep False 1 None Dot)"

definition greedy :: "nat \<Rightarrow> regex" where
  "greedy i = Grp i (Rep True 1 None Dot)"

text \<open>\<open>(?:w\s+)?\<close> for a literal \<open>w\<close>.\<close>

definition opt_word :: "string \<Rightarrow> regex" where
  "opt_word w = Opt (Cat (Lit w) sp)"

text \<open>\<open>(?:\s+w\s+(.+))?\<close> with the group numbered \<open>i\<close>.\<close>

definition opt_tail :: "string \<Rightarrow> nat \<Rightarrow> regex" where
  "opt_tail w i = Opt (cat [sp, Lit w, sp, greedy i])"

section \<open>The pattern and keyword tables\<close>

text \<open>\<open>self.intent_patterns\<close>: the intents in declaration order, each with its patterns.\<close>

definition calculate_patterns :: "regex list" where
  "calculate_patterns =
    [cat [lits [''calculate'', ''compute'', ''add'', ''subtract'', ''multiply'', ''divide''], sp,
          lazy 1, sp,
          lits [''plus'', ''minus'', ''times'', ''divided by'', ''multiply'', ''divide''], sp,
          greedy 2],
     cat [lits [''what is'', ''what's''], sp, lazy 1, sp,
          lits [''plus'', ''minus'', ''times'', ''divided by''], sp, greedy 2],
     cat [lits [''add'', ''subtract'', ''multiply'', ''divide''], sp, lazy 1, sp,
          lits [''and'', ''to'', ''by''], sp, greedy 2],
     cat [lits [''sum'', ''total'', ''result''], sp, Lit ''of'', sp, lazy 1, sp,
          lits [''and'', ''plus''], sp, greedy 2],
     cat [lits [''calculate'', ''compute''], sp, lazy 1, sp,
          lits [''and'', ''with''], sp, greedy 2],
     cat [lits [''math'', ''mathematics'', ''arithmetic''], sp, lits [''with'', ''using''], sp,
          lazy 1, sp, lits [''and'', ''plus'', ''minus'', ''times'', ''divided by''], sp,
          greedy 2],
     cat [lits [''power'', ''exponent''], sp, lazy 1, sp, lits [''to'', ''raised to''], sp,
          greedy 2],
     cat [lits [''square root'', ''sqrt''], sp, Lit ''of'', sp, greedy 1],
     cat [lits [''root'', ''radical''], sp, Lit ''of'', sp, greedy 1]]"

definition weather_patterns :: "regex list" where
  "weather_patterns =
    [cat [lits [''weather'', ''temperature'', ''forecast''], sp, opt_word ''in'', greedy 1],
     cat [lits [''what's'', ''what is''], sp, Lit ''the'', sp, Lit ''weather'', sp,
          opt_word ''like'', opt_word ''in'', greedy 1],
     cat [lits [''how's'', ''how is''], sp, Lit ''the'', sp, Lit ''weather'', sp,
          opt_word ''in'', greedy 1],
     cat [lits [''weather'', ''temperature''], sp, lits [''for'', ''in''], sp, greedy 1],
     cat [lits [''forecast'', ''weather forecast''], sp, lits [''for'', ''in''], sp, greedy 1],
     cat [lits [''is it'', ''will it''], sp, lits [''rain'', ''snow'', ''sunny'', ''cloudy''], sp,
          opt_word ''in'', greedy 1]]"

text \<open>The common end of the flight patterns: \<open>(?:from\s+)?(.+?)\s+(?:to\s+)?(.+?)(?:\s+on\s+(.+))?\<close>.\<close>

definition route :: "regex list" where
  "route = [opt_word ''from'', lazy 1, sp, opt_word ''to'', lazy 2, opt_tail ''on'' 3]"

definition book_flight_patterns :: "regex list" where
  "book_flight_patterns =
    [cat ([lits [''book'', ''reserve'', ''schedule''], sp, opt_word ''a'', Lit ''flight'', sp]
          @ route),
     cat ([lits [''fly'', ''travel'', ''go''], sp] @ route),
     cat ([lits [''flight'', ''ticket''], sp] @ route),
     cat ([lits [''i want to'', ''i need to'', ''can you''], sp,
           lits [''fly'', ''travel'', ''go''], sp] @ route),
     cat ([lits [''book'', ''reserve''], sp, opt_word ''a'', lits [''ticket'', ''seat''], sp]
          @ route),
     cat (route @ [sp, lits [''flight'', ''ticket'', ''travel'']])]"

definition send_email_patterns :: "regex list" where
  "send_email_patterns =
    [cat [lits [''send'', ''write'', ''compose''], sp, opt_word ''an'', Lit ''email'', sp,
          opt_word ''to'', lazy 1, opt_tail ''about'' 2],
     cat [lits [''email'', ''mail''], sp, lazy 1, opt_tail ''regarding'' 2],
     cat [lits [''send'', ''write''], sp, opt_word ''a'', Lit ''message'', sp,
          opt_word ''to'', lazy 1, opt_tail ''about'' 2],
     cat [lits [''contact'', ''reach out to''], sp, lazy 1, opt_tail ''about'' 2],
     cat [lits [''i want to'', ''i need to''], sp, lits [''send'', ''write''], sp,
          opt_word ''an'', Lit ''email'', sp, opt_word ''to'', lazy 1, opt_tail ''about'' 2]]"

definition search_patterns :: "regex list" where
  "search_patterns =
    [cat [lits [''search'', ''find'', ''look up''], sp, greedy 1],
     cat [lits [''what is'', ''what's''], sp, greedy 1],
     cat [lits [''tell me about'', ''information about''], sp, greedy 1],
     cat [lits [''i want to know'', ''i need to know''], sp, greedy 1],
     cat [lits [''can you tell me'', ''do you know''], sp, greedy 1],
     cat [lits [''help me find'', ''show me''], sp, greedy 1]]"

definition schedule_meeting_patterns :: "regex list" where
  "schedule_meeting_patterns =
    [cat [lits [''schedule'', ''book'', ''arrange''], sp, opt_word ''a'', Lit ''meeting'', sp,
          opt_word ''with'', lazy 1, opt_tail ''on'' 2],
     cat [lits [''meet'', ''meeting''], sp, opt_word ''with'', lazy 1, opt_tail ''on'' 2],
     cat [lits [''set up'', ''organize''], sp, opt_word ''a'', Lit ''meeting'', sp,
          opt_word ''with'', lazy 1, opt_tail ''on'' 2],
     cat [lits [''i want to'', ''i need to''], sp, lits [''meet'', ''schedule''], sp,
          opt_word ''with'', lazy 1, opt_tail ''on'' 2],
     cat [lits [''appointment'', ''call''], sp, opt_word ''with'', lazy 1, opt_tail ''on'' 2]]"

definition intent_patterns :: "(string \<times> regex list) list" where
  "intent_patterns =
    [(''calculate'', calculate_patterns),
     (''weather'', weather_patterns),
     (''book_flight'', book_flight_patterns),
     (''send_email'', send_email_patterns),
     (''search'', search_patterns),
     (''schedule_meeting'', schedule_meeting_patterns)]"

text \<open>\<open>self.intent_keywords\<close>.\<close>

definition intent_keywords :: "(string \<times> string list) list" where
  "intent_keywords =
    [(''calculate'', [''calculate'', ''compute'', ''add'', ''subtract'', ''multiply'', ''divide'',
                      ''math'', ''sum'', ''total'', ''plus'', ''minus'', ''times'']),
     (''weather'', [''weather'', ''temperature'', ''forecast'', ''rain'', ''snow'', ''sunny'',
                    ''cloudy'', ''hot'', ''cold'']),
     (''book_flight'', [''flight'', ''fly'', ''travel'', ''ticket'', ''airline'', ''airport'',
                        ''from'', ''to'', ''destination'', ''origin'']),
     (''send_email'', [''email'', ''mail'', ''send'', ''message'', ''contact'', ''recipient'',
                       ''inbox'']),
     (''search'', [''search'', ''find'', ''look'', ''what'', ''tell'', ''information'', ''know'',
                   ''help'']),
     (''schedule_meeting'', [''meeting'', ''schedule'', ''appointment'', ''call'', ''meet'',
                             ''calendar'', ''book''])]"

section \<open>Exceptions\<close>

text \<open>
  A Python exception is a value: its class and the text that \<open>str(e)\<close> gives. A function
  that can raise returns \<open>pyexc + 'a\<close>, with \<open>Inl\<close> for the exception raised.
\<close>

datatype pyexc =
    IndexError string
  | AttributeError string
  | KeyError string
  | ValueError string
  | TypeError string
  | ZeroDivisionError string
  | OverflowError string

fun exc_str :: "pyexc \<Rightarrow> string" where
  "exc_str (IndexError m) = m"
| "exc_str (AttributeError m) = m"
| "exc_str (KeyError m) = m"
| "exc_str (ValueError m) = m"
| "exc_str (TypeError m) = m"
| "exc_str (ZeroDivisionError m) = m"
| "exc_str (OverflowError m) = m"

fun is_overflow_error :: "pyexc \<Rightarrow> bool" where
  "is_overflow_error (OverflowError m) = True"
| "is_overflow_error e = False"

text \<open>A text between single quotes, as Python's messages print a name.\<close>

definition quoted :: "string \<Rightarrow> string" where
  "quoted s = [CHR 0x27] @ s @ [CHR 0x27]"

text \<open>\<open>groups[i]\<close> on the tuple of groups.\<close>

definition tuple_at :: "string option list \<Rightarrow> nat \<Rightarrow> pyexc + string option" where
  "tuple_at gs i =
     (if i < length gs then Inr (gs ! i) else Inl (IndexError ''tuple index out of range''))"

text \<open>\<open>match.group(i)\<close> for \<open>i \<ge> 1\<close>.\<close>

definition group :: "rmatch \<Rightarrow> nat \<Rightarrow> pyexc + string option" where
  "group m i =
     (if 1 \<le> i \<and> i \<le> length (groups m) then Inr (groups m ! (i - 1))
      else Inl (IndexError ''no such group''))"

text \<open>\<open>g.strip()\<close> where \<open>g\<close> may be \<open>None\<close>.\<close>

definition strip_opt :: "string option \<Rightarrow> pyexc + string" where
  "strip_opt g =
     (case g of
        None \<Rightarrow> Inl (AttributeError (quoted ''NoneType'' @ '' object has no attribute '' @ quoted ''strip''))
      | Some s \<Rightarrow> Inr (strip s))"

text \<open>Truthiness of a group: \<open>None\<close> and the empty string are falsy.\<close>

definition group_truthy :: "string option \<Rightarrow> bool" where
  "group_truthy g = (case g of None \<Rightarrow> False | Some s \<Rightarrow> s \<noteq> [])"

text \<open>\<open>groups[i].strip() if groups[i] else ""\<close>.\<close>

definition strip_or_empty :: "string option list \<Rightarrow> nat \<Rightarrow> pyexc + string" where
  "strip_or_empty gs i =
     (case tuple_at gs i of
        Inl e \<Rightarrow> Inl e
      | Inr g \<Rightarrow> if group_truthy g then strip_opt g else Inr [])"

section \<open>Values held in the slot mapping\<close>

text \<open>
  The slot mapping (\<open>extracted_info\<close>) built by the extractors of
  \<open>intent_controller.py\<close> holds two kinds of Python values: strings (a location, a
  query, an operation name) and lists of strings (the \<open>numbers\<close> slot). A Python
  \<open>str\<close> is modelled as a \<open>string\<close>; characters are 8-bit code points.
\<close>

datatype pyval = Str string | StrList "string list"

text \<open>Python truthiness: \<open>not v\<close> holds for the empty string and the empty list.\<close>

fun truthy :: "pyval \<Rightarrow> bool" where
  "truthy (Str s) = (s \<noteq> [])"
| "truthy (StrList xs) = (xs \<noteq> [])"

fun is_list :: "pyval \<Rightarrow> bool" where
  "is_list (Str s) = False"
| "is_list (StrList xs) = True"

text \<open>
  A Python \<open>dict\<close> with string keys is an association list in insertion order with
  distinct keys: \<open>d.get(k)\<close> is \<open>map_of d k\<close>, and \<open>d[k] = v\<close> is
  \<open>AList.update k v d\<close> (a present key keeps its place, a new key goes last).
\<close>

type_synonym slots = "(string \<times> pyval) list"

section \<open>The static schema\<close>

text \<open>\<open>self.required_fields\<close>, in declaration order.\<close>

definition required_fields :: "(string \<times> string list) list" where
  "required_fields =
    [(''calculate'', [''operation'', ''numbers'']),
     (''weather'', [''location'']),
     (''book_flight'', [''origin'', ''destination'', ''date'']),
     (''send_email'', [''recipient'', ''subject'', ''message'']),
     (''search'', [''query'']),
     (''schedule_meeting'', [''participants'', ''date'', ''duration''])]"

text \<open>\<open>self.api_endpoints\<close>.\<close>

definition api_endpoints :: "(string \<times> string) list" where
  "api_endpoints =
    [(''calculate'', ''calculator_api''),
     (''weather'', ''weather_api''),
     (''book_flight'', ''flight_booking_api''),
     (''send_email'', ''email_api''),
     (''search'', ''search_api''),
     (''schedule_meeting'', ''calendar_api'')]"

section \<open>Slot extraction\<close>

text \<open>The decimal-number pattern \<open>\d+(?:\.\d+)?\<close>.\<close>

definition digits1 :: regex where
  "digits1 = Rep True 1 None (OneOf [Digit])"

definition number_pattern :: regex where
  "number_pattern = Cat digits1 (Opt (Cat (Lit ''.'') digits1))"

definition detect_operation :: "string \<Rightarrow> string" where
  "detect_operation t =
     (let text = lower t in
      if str_in ''plus'' text \<or> str_in ''+'' text then ''add''
      else if str_in ''minus'' text \<or> str_in ''-'' text then ''subtract''
      else if str_in ''times'' text \<or> str_in ''*'' text \<or> str_in ''multiply'' text
        then ''multiply''
      else if str_in ''divide'' text \<or> str_in ''/'' text \<or> str_in ''divided by'' text
        then ''divide''
      else if str_in ''power'' text \<or> str_in ''exponent'' text \<or> str_in ''raised to'' text
              \<or> str_in ''^'' text
        then ''power''
      else if str_in ''square root'' text \<or> str_in ''sqrt'' text \<or> str_in ''root'' text
              \<or> str_in ''radical'' text
        then ''sqrt''
      else ''add'')"

definition parse_calculation :: "string \<Rightarrow> slots" where
  "parse_calculation text =
     (let operation =
        (if str_in ''plus'' text \<or> str_in ''+'' text then ''add''
         else if str_in ''minus'' text \<or> str_in ''-'' text then ''subtract''
         else if str_in ''times'' text \<or> str_in ''*'' text \<or> str_in ''multiply'' text
           then ''multiply''
         else if str_in ''divide'' text \<or> str_in ''/'' text then ''divide''
         else ''add'')
      in [(''operation'', Str operation), (''numbers'', StrList (re_findall number_pattern text))])"

text \<open>\<open>extracted.update(d)\<close>.\<close>

definition dict_update :: "slots \<Rightarrow> slots \<Rightarrow> slots" where
  "dict_update d new = fold (\<lambda>(k, v) acc. AList.update k v acc) new d"

text \<open>
  The loop of the calculate branch over the groups: the numbers found in each group that
  is truthy, in order.
\<close>

fun group_numbers :: "string option list \<Rightarrow> string list" where
  "group_numbers [] = []"
| "group_numbers (g # gs) =
     (case g of
        None \<Rightarrow> group_numbers gs
      | Some s \<Rightarrow>
          if s \<noteq> [] then re_findall number_pattern (strip s) @ group_numbers gs
          else group_numbers gs)"

definition extract_calculate :: "string option list \<Rightarrow> string \<Rightarrow> pyexc + slots" where
  "extract_calculate gs user_input =
     (if 2 \<le> length gs \<and> group_truthy (gs ! 1) then
        Inr [(''operation'', Str (detect_operation user_input)),
             (''numbers'', StrList (group_numbers gs))]
      else
        (case tuple_at gs 0 of
           Inl e \<Rightarrow> Inl e
         | Inr g0 \<Rightarrow>
             (let text = (if group_truthy g0 then the g0 else []) in
              if str_in ''square root'' (lower user_input) \<or> str_in ''sqrt'' (lower user_input)
              then Inr [(''operation'', Str ''sqrt''),
                        (''numbers'', StrList (re_findall number_pattern text))]
              else Inr (dict_update [] (parse_calculation text)))))"

definition extract_info_from_match :: "string \<Rightarrow> rmatch \<Rightarrow> string \<Rightarrow> pyexc + slots" where
  "extract_info_from_match intent m user_input =
     (let gs = groups m in
      if intent = ''calculate'' then extract_calculate gs user_input
      else if intent = ''weather'' then
        (case strip_or_empty gs 0 of
           Inl e \<Rightarrow> Inl e
         | Inr location \<Rightarrow> Inr [(''location'', Str location)])
      else if intent = ''book_flight'' then
        (if 3 \<le> length gs then
           (case strip_or_empty gs 0 of
              Inl e \<Rightarrow> Inl e
            | Inr origin \<Rightarrow>
           (case strip_or_empty gs 1 of
              Inl e \<Rightarrow> Inl e
            | Inr destination \<Rightarrow>
           (case strip_or_empty gs 2 of
              Inl e \<Rightarrow> Inl e
            | Inr date \<Rightarrow>
                Inr [(''origin'', Str origin), (''destination'', Str destination),
                     (''date'', Str date)])))
         else if 2 \<le> length gs then
           (case strip_or_empty gs 0 of
              Inl e \<Rightarrow> Inl e
            | Inr origin \<Rightarrow>
           (case strip_or_empty gs 1 of
              Inl e \<Rightarrow> Inl e
            | Inr destination \<Rightarrow>
                Inr [(''origin'', Str origin), (''destination'', Str destination)]))
         else Inr [])
      else if intent = ''send_email'' then
        (case strip_or_empty gs 0 of
           Inl e \<Rightarrow> Inl e
         | Inr recipient \<Rightarrow>
        (case strip_or_empty gs 1 of
           Inl e \<Rightarrow> Inl e
         | Inr subject \<Rightarrow> Inr [(''recipient'', Str recipient), (''subject'', Str subject)]))
      else if intent = ''search'' then
        (case strip_or_empty gs 0 of
           Inl e \<Rightarrow> Inl e
         | Inr query \<Rightarrow> Inr [(''query'', Str query)])
      else if intent = ''schedule_meeting'' then
        (case strip_or_empty gs 0 of
           Inl e \<Rightarrow> Inl e
         | Inr participants \<Rightarrow>
        (case strip_or_empty gs 1 of
           Inl e \<Rightarrow> Inl e
         | Inr date \<Rightarrow> Inr [(''participants'', Str participants), (''date'', Str date)]))
      else Inr [])"

subsection \<open>Keyword mode\<close>

text \<open>\<open>[a-zA-Z\s]+?\<close> as group \<open>i\<close>, and \<open>(?:\s|$)\<close>.\<close>

definition words_lazy :: "nat \<Rightarrow> regex" where
  "words_lazy i =
     Grp i (Rep False 1 None (OneOf [Rng CHR ''a'' CHR ''z'', Rng CHR ''A'' CHR ''Z'', Space]))"

definition space_or_end :: regex where
  "space_or_end = Alt (One (OneOf [Space])) Eos"

definition location_patterns :: "regex list" where
  "location_patterns =
    [cat [lits [''in'', ''at'', ''for''], sp, words_lazy 1, space_or_end],
     cat [Lit ''weather'', sp, lits [''in'', ''at'', ''for''], sp, words_lazy 1, space_or_end]]"

text \<open>\<open>\b[A-Z][a-z]+(?:\s+[A-Z][a-z]+)*\b\<close>.\<close>

definition capitalized :: regex where
  "capitalized = Cat (One (OneOf [Rng CHR ''A'' CHR ''Z'']))
                     (Rep True 1 None (OneOf [Rng CHR ''a'' CHR ''z'']))"

definition capitalized_words :: regex where
  "capitalized_words = cat [WordB, capitalized, Star (Cat sp capitalized), WordB]"

definition from_to_pattern :: regex where
  "from_to_pattern =
     cat [lits [''from'', ''departing''], sp, words_lazy 1, sp, lits [''to'', ''arriving at''], sp,
          words_lazy 2, space_or_end]"

text \<open>\<open>\d{1,2}\<close> and \<open>\d{4}\<close>.\<close>

definition digits_1_2 :: regex where
  "digits_1_2 = Rep True 1 (Some 2) (OneOf [Digit])"

definition digits_4 :: regex where
  "digits_4 = Rep True 4 (Some 4) (OneOf [Digit])"

definition date_patterns :: "regex list" where
  "date_patterns =
    [cat [lits [''on'', ''date'', ''when''], sp,
          Grp 1 (cat [Rep True 1 None (OneOf [Rng CHR ''a'' CHR ''z'', Rng CHR ''A'' CHR ''Z'']),
                      sp, digits_1_2, Opt (Lit '',''), sp, digits_4])],
     cat [lits [''on'', ''date'', ''when''], sp,
          Grp 1 (cat [digits_1_2, Lit ''/'', digits_1_2, Lit ''/'', digits_4])],
     cat [lits [''on'', ''date'', ''when''], sp,
          Grp 1 (cat [digits_1_2, Lit ''-'', digits_1_2, Lit ''-'', digits_4])]]"

text \<open>\<open>\b[A-Za-z0-9._%+-]+@[A-Za-z0-9.-]+\.[A-Z|a-z]{2,}\b\<close>.\<close>

definition email_pattern :: regex where
  "email_pattern =
     cat [WordB,
          Rep True 1 None (OneOf [Rng CHR ''A'' CHR ''Z'', Rng CHR ''a'' CHR ''z'',
                                  Rng CHR ''0'' CHR ''9'', Ch CHR ''.'', Ch CHR ''_'',
                                  Ch CHR ''%'', Ch CHR ''+'', Ch CHR ''-'']),
          Lit ''@'',
          Rep True 1 None (OneOf [Rng CHR ''A'' CHR ''Z'', Rng CHR ''a'' CHR ''z'',
                                  Rng CHR ''0'' CHR ''9'', Ch CHR ''.'', Ch CHR ''-'']),
          Lit ''.'',
          Rep True 2 None (OneOf [Rng CHR ''A'' CHR ''Z'', Ch CHR ''|'', Rng CHR ''a'' CHR ''z'']),
          WordB]"

definition subject_pattern :: regex where
  "subject_pattern =
     cat [lits [''about'', ''regarding'', ''subject''], sp, words_lazy 1, space_or_end]"

definition with_pattern :: regex where
  "with_pattern = cat [lits [''with'', ''meeting with''], sp, words_lazy 1, space_or_end]"

text \<open>\<open>match.group(i).strip()\<close>.\<close>

definition group_strip :: "rmatch \<Rightarrow> nat \<Rightarrow> pyexc + string" where
  "group_strip m i = (case group m i of Inl e \<Rightarrow> Inl e | Inr g \<Rightarrow> strip_opt g)"

text \<open>
  The loops \<open>for pattern in ...: match = re.search(pattern, user_input); if match:
  extracted[key] = match.group(1).strip(); break\<close>.
\<close>

fun first_group1 :: "regex list \<Rightarrow> string \<Rightarrow> string \<Rightarrow> slots \<Rightarrow> pyexc + slots" where
  "first_group1 [] user_input key extracted = Inr extracted"
| "first_group1 (pattern # patterns) user_input key extracted =
     (case re_search pattern user_input of
        None \<Rightarrow> first_group1 patterns user_input key extracted
      | Some m \<Rightarrow>
          (case group_strip m 1 of
             Inl e \<Rightarrow> Inl e
           | Inr v \<Rightarrow> Inr (AList.update key (Str v) extracted)))"

definition search_keywords :: "string list" where
  "search_keywords =
     [''search'', ''find'', ''look'', ''what'', ''tell'', ''information'', ''know'', ''help'']"

text \<open>The loop of the search branch over \<open>search_keywords\<close>, from the query so far.\<close>

fun search_query :: "string list \<Rightarrow> string \<Rightarrow> string \<Rightarrow> string" where
  "search_query [] user_input query = query"
| "search_query (keyword # keywords) user_input query =
     (if str_in keyword user_input then
        (case split_once keyword user_input of
           Some (before, after) \<Rightarrow> strip after
         | None \<Rightarrow> search_query keywords user_input query)
      else search_query keywords user_input query)"

definition extract_info_by_keywords :: "string \<Rightarrow> string \<Rightarrow> pyexc + slots" where
  "extract_info_by_keywords intent user_input =
     (if intent = ''calculate'' then
        (let numbers = re_findall number_pattern user_input;
             operation = detect_operation user_input
         in Inr [(''operation'', Str operation),
                 (''numbers'', StrList (if numbers \<noteq> [] then numbers else []))])
      else if intent = ''weather'' then
        (case first_group1 location_patterns user_input ''location'' [] of
           Inl e \<Rightarrow> Inl e
         | Inr extracted \<Rightarrow>
             if map_of extracted ''location'' = None then
               (case re_findall capitalized_words user_input of
                  [] \<Rightarrow> Inr extracted
                | location # _ \<Rightarrow> Inr (AList.update ''location'' (Str location) extracted))
             else Inr extracted)
      else if intent = ''book_flight'' then
        (case (case re_search from_to_pattern user_input of
                 None \<Rightarrow> Inr []
               | Some m \<Rightarrow>
                   (case group_strip m 1 of
                      Inl e \<Rightarrow> Inl e
                    | Inr origin \<Rightarrow>
                   (case group_strip m 2 of
                      Inl e \<Rightarrow> Inl e
                    | Inr destination \<Rightarrow>
                        Inr [(''origin'', Str origin), (''destination'', Str destination)])))
         of Inl e \<Rightarrow> Inl e
          | Inr extracted \<Rightarrow> first_group1 date_patterns user_input ''date'' extracted)
      else if intent = ''send_email'' then
        (let extracted = (case re_findall email_pattern user_input of
                            [] \<Rightarrow> []
                          | email # _ \<Rightarrow> [(''recipient'', Str email)])
         in first_group1 [subject_pattern] user_input ''subject'' extracted)
      else if intent = ''search'' then
        Inr [(''query'', Str (search_query search_keywords user_input user_input))]
      else if intent = ''schedule_meeting'' then
        (case first_group1 [with_pattern] user_input ''participants'' [] of
           Inl e \<Rightarrow> Inl e
         | Inr extracted \<Rightarrow> first_group1 date_patterns user_input ''date'' extracted)
      else Inr [])"

section \<open>Intent classifier\<close>

text \<open>The scoring loop of \<open>_detect_intent_by_keywords\<close> over the keywords of one intent.\<close>

fun keyword_score :: "string list \<Rightarrow> string \<Rightarrow> string list \<Rightarrow> rat \<Rightarrow> rat" where
  "keyword_score [] user_input words score = score"
| "keyword_score (keyword # keywords) user_input words score =
     (if str_in keyword user_input then
        (if keyword \<in> set words then keyword_score keywords user_input words (score + 1 + 1 / 2)
         else keyword_score keywords user_input words (score + 1))
      else keyword_score keywords user_input words score)"

definition intent_scores :: "string \<Rightarrow> (string \<times> rat) list" where
  "intent_scores user_input =
     map (\<lambda>(intent, keywords). (intent, keyword_score keywords user_input (split user_input) 0))
       intent_keywords"

text \<open>
  \<open>max(d, key=d.get)\<close> on a non-empty dictionary: the keys are visited in order and
  the best one is replaced only by a key with a strictly greater value.
\<close>

fun max_key_from :: "(string \<times> rat) \<Rightarrow> (string \<times> rat) list \<Rightarrow> string" where
  "max_key_from best [] = fst best"
| "max_key_from best (kv # kvs) =
     (if snd best < snd kv then max_key_from kv kvs else max_key_from best kvs)"

definition detect_intent_by_keywords :: "string \<Rightarrow> string option" where
  "detect_intent_by_keywords user_input =
     (case intent_scores user_input of
        [] \<Rightarrow> None
      | kv # kvs \<Rightarrow>
          (let best_intent = max_key_from kv kvs in
           case map_of (kv # kvs) best_intent of
             Some score \<Rightarrow> if 0 < score then Some best_intent else None
           | None \<Rightarrow> None))"

text \<open>The two nested loops of the pattern phase of \<open>parse_intent\<close>.\<close>

fun first_pattern :: "regex list \<Rightarrow> string \<Rightarrow> rmatch option" where
  "first_pattern [] user_input = None"
| "first_pattern (pattern # patterns) user_input =
     (case re_search pattern user_input of
        Some m \<Rightarrow> Some m
      | None \<Rightarrow> first_pattern patterns user_input)"

fun pattern_phase :: "(string \<times> regex list) list \<Rightarrow> string \<Rightarrow> (string \<times> rmatch) option" where
  "pattern_phase [] user_input = None"
| "pattern_phase ((intent, patterns) # table) user_input =
     (case first_pattern patterns user_input of
        Some m \<Rightarrow> Some (intent, m)
      | None \<Rightarrow> pattern_phase table user_input)"

text \<open>
  The dictionary returned by \<open>parse_intent\<close>, each key with the prefix \<open>c_\<close>; the
  confidence is the decimal written in the source.
\<close>

record classification =
  c_intent :: string
  c_confidence :: rat
  c_extracted_info :: slots
  c_raw_input :: string
  c_detection_method :: string

definition parse_intent :: "string \<Rightarrow> pyexc + classification" where
  "parse_intent text =
     (let user_input = strip (lower text) in
      case pattern_phase intent_patterns user_input of
        Some (intent, m) \<Rightarrow>
          (case extract_info_from_match intent m user_input of
             Inl e \<Rightarrow> Inl e
           | Inr extracted \<Rightarrow>
               Inr \<lparr>c_intent = intent, c_confidence = 9 / 10, c_extracted_info = extracted,
                    c_raw_input = user_input, c_detection_method = ''pattern''\<rparr>)
      | None \<Rightarrow>
          (case detect_intent_by_keywords user_input of
             Some keyword_intent \<Rightarrow>
               (case extract_info_by_keywords keyword_intent user_input of
                  Inl e \<Rightarrow> Inl e
                | Inr extracted \<Rightarrow>
                    Inr \<lparr>c_intent = keyword_intent, c_confidence = 7 / 10,
                         c_extracted_info = extracted, c_raw_input = user_input,
                         c_detection_method = ''keywords''\<rparr>)
           | None \<Rightarrow>
               Inr \<lparr>c_intent = ''search'', c_confidence = 3 / 10,
                    c_extracted_info = [(''query'', Str user_input)],
                    c_raw_input = user_input, c_detection_method = ''default''\<rparr>))"

section \<open>Completeness checker\<close>

text \<open>
  The loop of \<open>check_missing_info\<close> over the required fields: a field is appended when
  it is not a key of the mapping or its value is falsy; the \<open>elif\<close> branch appends a
  field whose value is a list and falsy.
\<close>

definition appends_field :: "slots \<Rightarrow> string \<Rightarrow> bool" where
  "appends_field info field =
     (case map_of info field of
        None \<Rightarrow> True
      | Some v \<Rightarrow>
          if \<not> truthy v then True
          else if is_list v \<and> \<not> truthy v then True
          else False)"

primrec missing_loop :: "slots \<Rightarrow> string list \<Rightarrow> string list" where
  "missing_loop info [] = []"
| "missing_loop info (field # required) =
     (if appends_field info field then field # missing_loop info required
      else missing_loop info required)"

definition check_missing_info :: "string \<Rightarrow> slots \<Rightarrow> string list" where
  "check_missing_info intent info =
     (case map_of required_fields intent of
        None \<Rightarrow> []
      | Some required \<Rightarrow> missing_loop info required)"

text \<open>The wording of the specification: a slot is absent or empty.\<close>

definition absent_or_empty :: "slots \<Rightarrow> string \<Rightarrow> bool" where
  "absent_or_empty info field =
     (map_of info field = None \<or> map_of info field = Some (Str []) \<or>
      map_of info field = Some (StrList []))"

section \<open>Python numbers\<close>

text \<open>
  A Python \<open>float\<close> is an IEEE 754 binary64 value: a finite value is held as the
  rational number it denotes (\<open>Fin 0\<close> is \<open>0.0\<close>, \<open>NegZero\<close> is \<open>-0.0\<close>), and every
  operation is the exact operation on rationals followed by rounding to the nearest
  binary64 value, ties to even.
\<close>

datatype pyfloat = Fin rat | NegZero | PInf | NInf | NaN

definition pow2 :: "int \<Rightarrow> rat" where
  "pow2 e = (if 0 \<le> e then 2 ^ nat e else 1 / 2 ^ nat (- e))"

definition pow10 :: "int \<Rightarrow> rat" where
  "pow10 e = (if 0 \<le> e then 10 ^ nat e else 1 / 10 ^ nat (- e))"

text \<open>\<open>ilog b q\<close> is the integer \<open>e\<close> with \<open>b ^ e \<le> q < b ^ (e + 1)\<close>, for \<open>0 < q\<close>.\<close>

definition ilog :: "nat \<Rightarrow> rat \<Rightarrow> int" where
  "ilog b q =
     (if 1 \<le> q then int (floorlog b (nat \<lfloor>q\<rfloor>)) - 1
      else (let j = int (floorlog b (nat \<lfloor>1 / q\<rfloor>)) - 1
            in if of_nat b ^ nat j = 1 / q then - j else - j - 1))"

definition round_half_even :: "rat \<Rightarrow> int" where
  "round_half_even m =
     (let f = \<lfloor>m\<rfloor>; r = m - of_int f
      in if r < 1 / 2 then f else if 1 / 2 < r then f + 1 else if even f then f else f + 1)"

text \<open>
  Rounding a rational to binary64: 53 significant bits, the least exponent of a unit in
  the last place is \<open>-1074\<close>, and a rounded magnitude of \<open>2 ^ 1024\<close> or more is infinite.
\<close>

definition to_double :: "rat \<Rightarrow> pyfloat" where
  "to_double q =
     (if q = 0 then Fin 0
      else (let a = \<bar>q\<bar>;
                t = max (ilog 2 a) (- 1022) - 52;
                k = round_half_even (a / pow2 t);
                v = of_int k * pow2 t
            in if pow2 1024 \<le> v then (if q < 0 then NInf else PInf)
               else if k = 0 then (if q < 0 then NegZero else Fin 0)
               else Fin (if q < 0 then - v else v)))"

definition is_negative :: "pyfloat \<Rightarrow> bool" where
  "is_negative x = (case x of Fin q \<Rightarrow> q < 0 | NegZero \<Rightarrow> True | NInf \<Rightarrow> True | _ \<Rightarrow> False)"

definition signed_zero :: "bool \<Rightarrow> pyfloat" where
  "signed_zero neg = (if neg then NegZero else Fin 0)"

definition signed_inf :: "bool \<Rightarrow> pyfloat" where
  "signed_inf neg = (if neg then NInf else PInf)"

definition float_neg :: "pyfloat \<Rightarrow> pyfloat" where
  "float_neg x =
     (case x of
        Fin q \<Rightarrow> if q = 0 then NegZero else Fin (- q)
      | NegZero \<Rightarrow> Fin 0
      | PInf \<Rightarrow> NInf
      | NInf \<Rightarrow> PInf
      | NaN \<Rightarrow> NaN)"

text \<open>The rational of a finite value (zero for \<open>-0.0\<close>).\<close>

definition finite_value :: "pyfloat \<Rightarrow> rat option" where
  "finite_value x = (case x of Fin q \<Rightarrow> Some q | NegZero \<Rightarrow> Some 0 | _ \<Rightarrow> None)"

definition is_zero :: "pyfloat \<Rightarrow> bool" where
  "is_zero x = (finite_value x = Some 0)"

definition float_add :: "pyfloat \<Rightarrow> pyfloat \<Rightarrow> pyfloat" where
  "float_add x y =
     (if x = NaN \<or> y = NaN then NaN
      else if x = PInf then (if y = NInf then NaN else PInf)
      else if x = NInf then (if y = PInf then NaN else NInf)
      else if y = PInf \<or> y = NInf then y
      else if x = NegZero \<and> y = NegZero then NegZero
      else to_double (the (finite_value x) + the (finite_value y)))"

definition float_sub :: "pyfloat \<Rightarrow> pyfloat \<Rightarrow> pyfloat" where
  "float_sub x y = float_add x (float_neg y)"

definition float_mul :: "pyfloat \<Rightarrow> pyfloat \<Rightarrow> pyfloat" where
  "float_mul x y =
     (let neg = (is_negative x \<noteq> is_negative y) in
      if x = NaN \<or> y = NaN then NaN
      else if x = PInf \<or> x = NInf then (if is_zero y then NaN else signed_inf neg)
      else if y = PInf \<or> y = NInf then (if is_zero x then NaN else signed_inf neg)
      else if is_zero x \<or> is_zero y then signed_zero neg
      else to_double (the (finite_value x) * the (finite_value y)))"

text \<open>\<open>x / y\<close> on floats raises when the divisor is zero and never otherwise.\<close>

definition float_div :: "pyfloat \<Rightarrow> pyfloat \<Rightarrow> pyexc + pyfloat" where
  "float_div x y =
     (let neg = (is_negative x \<noteq> is_negative y) in
      if is_zero y then Inl (ZeroDivisionError ''float division by zero'')
      else if x = NaN \<or> y = NaN then Inr NaN
      else if x = PInf \<or> x = NInf then
        (if y = PInf \<or> y = NInf then Inr NaN else Inr (signed_inf neg))
      else if y = PInf \<or> y = NInf then Inr (signed_zero neg)
      else if is_zero x then Inr (signed_zero neg)
      else Inr (to_double (the (finite_value x) / the (finite_value y))))"

text \<open>\<open>x == 0\<close> and \<open>x < 0\<close>.\<close>

definition float_lt_zero :: "pyfloat \<Rightarrow> bool" where
  "float_lt_zero x = (case x of Fin q \<Rightarrow> q < 0 | NInf \<Rightarrow> True | _ \<Rightarrow> False)"

text \<open>\<open>int(x)\<close>: truncation towards zero; it raises on an infinity and on a NaN.\<close>

definition trunc :: "rat \<Rightarrow> int" where
  "trunc q = (if 0 \<le> q then \<lfloor>q\<rfloor> else \<lceil>q\<rceil>)"

definition float_int :: "pyfloat \<Rightarrow> pyexc + int" where
  "float_int x =
     (case x of
        Fin q \<Rightarrow> Inr (trunc q)
      | NegZero \<Rightarrow> Inr 0
      | PInf \<Rightarrow> Inl (OverflowError ''cannot convert float infinity to integer'')
      | NInf \<Rightarrow> Inl (OverflowError ''cannot convert float infinity to integer'')
      | NaN \<Rightarrow> Inl (ValueError ''cannot convert float NaN to integer''))"

text \<open>\<open>x == n\<close> for a float and an integer compares the exact values.\<close>

definition float_eq_int :: "pyfloat \<Rightarrow> int \<Rightarrow> bool" where
  "float_eq_int x n = (finite_value x = Some (of_int n))"

text \<open>
  \<open>round(x, 6)\<close>: the decimal with six places nearest to the exact value of \<open>x\<close>, ties to
  even, converted back to a float.
\<close>

definition round6 :: "pyfloat \<Rightarrow> pyfloat" where
  "round6 x =
     (case x of
        Fin q \<Rightarrow>
          (let m = round_half_even (q * 10 ^ 6)
           in if m = 0 then signed_zero (q < 0) else to_double (of_int m / 10 ^ 6))
      | _ \<Rightarrow> x)"

subsection \<open>Printing numbers\<close>

definition digit_char :: "nat \<Rightarrow> char" where
  "digit_char d = char_of (48 + d)"

fun nat_str :: "nat \<Rightarrow> string" where
  "nat_str n = (if n < 10 then [digit_char n] else nat_str (n div 10) @ [digit_char (n mod 10)])"

definition int_str :: "int \<Rightarrow> string" where
  "int_str i = (if i < 0 then ''-'' @ nat_str (nat (- i)) else nat_str (nat i))"

text \<open>
  \<open>repr\<close> of a float prints the shortest decimal that reads back as the same float.
  \<open>shortest n fuel q e\<close> tries \<open>n\<close>, \<open>n + 1\<close>, ... significant digits for \<open>0 < q\<close>
  with \<open>10 ^ e \<le> q < 10 ^ (e + 1)\<close>; it returns the digits as a number \<open>d\<close> and the
  exponent \<open>x\<close> with \<open>d * 10 ^ x\<close> the decimal found.
\<close>

fun shortest :: "nat \<Rightarrow> nat \<Rightarrow> rat \<Rightarrow> int \<Rightarrow> nat \<times> int" where
  "shortest n 0 q e = (nat (round_half_even (q * pow10 (int n - 1 - e))), e + 1 - int n)"
| "shortest n (Suc fuel) q e =
     (let x = e + 1 - int n;
          m = q * pow10 (- x);
          lo = \<lfloor>m\<rfloor>;
          ok_lo = (to_double (of_int lo * pow10 x) = Fin q);
          ok_hi = (to_double (of_int (lo + 1) * pow10 x) = Fin q)
      in if ok_lo \<and> ok_hi then (nat (round_half_even m), x)
         else if ok_lo then (nat lo, x)
         else if ok_hi then (nat (lo + 1), x)
         else shortest (Suc n) fuel q e)"

definition strip_zeros :: "string \<Rightarrow> string" where
  "strip_zeros ds = rev (dropWhile (\<lambda>c. c = CHR ''0'') (rev ds))"

text \<open>
  The layout of \<open>repr\<close>: with the digits \<open>ds\<close> and the decimal point after \<open>decpt\<close>
  digits, fixed notation for \<open>-4 < decpt \<le> 16\<close> and exponent notation otherwise.
\<close>

definition layout :: "string \<Rightarrow> int \<Rightarrow> string" where
  "layout ds decpt =
     (if - 4 < decpt \<and> decpt \<le> 16 then
        (if decpt \<le> 0 then ''0.'' @ replicate (nat (- decpt)) CHR ''0'' @ ds
         else if int (length ds) \<le> decpt
           then ds @ replicate (nat decpt - length ds) CHR ''0'' @ ''.0''
         else take (nat decpt) ds @ ''.'' @ drop (nat decpt) ds)
      else
        (let x = decpt - 1;
             mant = (if length ds \<le> 1 then ds else take 1 ds @ ''.'' @ drop 1 ds);
             ex = nat_str (nat \<bar>x\<bar>)
         in mant @ ''e'' @ (if x < 0 then ''-'' else ''+'')
              @ (if length ex < 2 then ''0'' @ ex else ex)))"

definition positive_repr :: "rat \<Rightarrow> string" where
  "positive_repr q =
     (let (d, x) = shortest 1 16 q (ilog 10 q);
          all_digits = nat_str d;
          ds = strip_zeros all_digits
      in layout ds (int (length all_digits) + x))"

definition float_repr :: "pyfloat \<Rightarrow> string" where
  "float_repr x =
     (case x of
        Fin q \<Rightarrow>
          if q = 0 then ''0.0''
          else if q < 0 then ''-'' @ positive_repr (- q)
          else positive_repr q
      | NegZero \<Rightarrow> ''-0.0''
      | PInf \<Rightarrow> ''inf''
      | NInf \<Rightarrow> ''-inf''
      | NaN \<Rightarrow> ''nan'')"

subsection \<open>Reading a float\<close>

text \<open>
  \<open>float(s)\<close> on a string: optional whitespace around an optional sign and then
  \<open>inf\<close>, \<open>infinity\<close> or \<open>nan\<close> in any case, or a decimal number with an optional
  fraction and an optional exponent; a single underscore may stand between two digits.
  The value is the decimal rounded to the nearest float. Anything else raises
  \<open>ValueError\<close>. The whitespace that \<open>float\<close> removes from an ASCII string is
  that of C's \<open>isspace\<close>, the characters 9 to 13 and 32: unlike \<open>str.strip\<close> it
  keeps the characters 28 to 31, and a string that holds one of them is rejected.
\<close>

definition is_c_space :: "char \<Rightarrow> bool" where
  "is_c_space c = ((9 \<le> ord c \<and> ord c \<le> 13) \<or> ord c = 32)"

definition c_strip :: "string \<Rightarrow> string" where
  "c_strip s = rev (dropWhile is_c_space (rev (dropWhile is_c_space s)))"

definition cons_digit :: "char \<Rightarrow> string \<times> string \<Rightarrow> string \<times> string" where
  "cons_digit c p = (c # fst p, snd p)"

text \<open>The longest digit part at the head of a text (the digits read, and the text left).\<close>

fun digit_run :: "string \<Rightarrow> string \<times> string" where
  "digit_run (c # u # d # s) =
     (if is_digit c then
        (if u = CHR ''_'' \<and> is_digit d then cons_digit c (digit_run (d # s))
         else cons_digit c (digit_run (u # d # s)))
      else ([], c # u # d # s))"
| "digit_run [c, u] = (if is_digit c then cons_digit c (digit_run [u]) else ([], [c, u]))"
| "digit_run [c] = (if is_digit c then ([c], []) else ([], [c]))"
| "digit_run [] = ([], [])"

definition digits_value :: "string \<Rightarrow> nat" where
  "digits_value ds = foldl (\<lambda>n c. 10 * n + (ord c - 48)) 0 ds"

text \<open>The sign at the head of a text: whether it is a minus, and the text after it.\<close>

definition read_sign :: "string \<Rightarrow> bool \<times> string" where
  "read_sign s =
     (case s of
        c # s' \<Rightarrow> if c = CHR ''-'' then (True, s') else if c = CHR ''+'' then (False, s')
                  else (False, s)
      | [] \<Rightarrow> (False, s))"

text \<open>The exponent part: \<open>None\<close> when the text is not an exponent.\<close>

definition read_exponent :: "string \<Rightarrow> int option" where
  "read_exponent s =
     (case s of
        [] \<Rightarrow> Some 0
      | c # s' \<Rightarrow>
          if c = CHR ''e'' \<or> c = CHR ''E'' then
            (let (neg, s'') = read_sign s'; (ds, left) = digit_run s''
             in if ds \<noteq> [] \<and> left = []
                then Some (if neg then - int (digits_value ds) else int (digits_value ds))
                else None)
          else None)"

definition read_number :: "string \<Rightarrow> rat option" where
  "read_number s =
     (let (ip, s1) = digit_run s;
          (fp, s2) = (case s1 of
                        c # s1' \<Rightarrow> if c = CHR ''.'' then digit_run s1' else ([], s1)
                      | [] \<Rightarrow> ([], s1))
      in if ip = [] \<and> fp = [] then None
         else (case read_exponent s2 of
                 None \<Rightarrow> None
               | Some ex \<Rightarrow>
                   Some (of_nat (digits_value (ip @ fp)) * pow10 (ex - int (length fp)))))"

definition float_error :: "string \<Rightarrow> pyexc" where
  "float_error s = ValueError (''could not convert string to float: '' @ quoted s)"

definition float_of_str :: "string \<Rightarrow> pyexc + pyfloat" where
  "float_of_str s =
     (let (neg, body) = read_sign (c_strip s) in
      if lower body = ''inf'' \<or> lower body = ''infinity'' then Inr (signed_inf neg)
      else if lower body = ''nan'' then Inr NaN
      else (case read_number body of
              None \<Rightarrow> Inl (float_error s)
            | Some q \<Rightarrow>
                if q = 0 then Inr (signed_zero neg)
                else Inr (to_double (if neg then - q else q))))"

subsection \<open>Powers\<close>

text \<open>
  \<open>x ** y\<close> on floats follows \<open>float_pow\<close> of CPython: the special cases are decided
  first, and the remaining case (a finite base that is not zero and not one, a finite
  exponent that is not zero) calls \<open>pow\<close> of the C library. That function is not part of
  Python: it is the parameter \<open>libm_pow\<close>, which returns the value and the \<open>errno\<close>
  it leaves. The result of \<open>**\<close> is a float, or a complex number for a negative base
  with an exponent that is not an integer.
\<close>

datatype errno = NoError | ERANGE | EDOM

type_synonym libm = "pyfloat \<Rightarrow> pyfloat \<Rightarrow> pyfloat \<times> errno"

datatype pynum = FloatNum pyfloat | ComplexNum

definition is_inf :: "pyfloat \<Rightarrow> bool" where
  "is_inf x = (x = PInf \<or> x = NInf)"

text \<open>\<open>fmod(fabs(x), 2.0) == 1.0\<close>.\<close>

definition is_odd_integer :: "pyfloat \<Rightarrow> bool" where
  "is_odd_integer x = (case x of Fin q \<Rightarrow> of_int \<lfloor>q\<rfloor> = q \<and> odd \<lfloor>q\<rfloor> | _ \<Rightarrow> False)"

text \<open>\<open>x != floor(x)\<close> for a finite \<open>x\<close>.\<close>

definition not_integral :: "pyfloat \<Rightarrow> bool" where
  "not_integral x = (case x of Fin q \<Rightarrow> of_int \<lfloor>q\<rfloor> \<noteq> q | _ \<Rightarrow> False)"

definition float_abs :: "pyfloat \<Rightarrow> pyfloat" where
  "float_abs x = (if is_negative x then float_neg x else x)"

text \<open>\<open>x > 0\<close>, \<open>x > 1\<close> and \<open>x == 1\<close>.\<close>

definition float_gt_zero :: "pyfloat \<Rightarrow> bool" where
  "float_gt_zero x = (case x of Fin q \<Rightarrow> 0 < q | PInf \<Rightarrow> True | _ \<Rightarrow> False)"

definition float_gt_one :: "pyfloat \<Rightarrow> bool" where
  "float_gt_one x = (case x of Fin q \<Rightarrow> 1 < q | PInf \<Rightarrow> True | _ \<Rightarrow> False)"

text \<open>
  \<open>_Py_ADJUST_ERANGE1\<close>: an infinite result with no error sets \<open>ERANGE\<close>, and
  \<open>ERANGE\<close> with a zero result (an underflow) is cleared.
\<close>

definition adjust_erange :: "pyfloat \<times> errno \<Rightarrow> errno" where
  "adjust_erange r =
     (case r of (x, err) \<Rightarrow>
        if err = NoError then (if is_inf x then ERANGE else NoError)
        else if err = ERANGE \<and> is_zero x then NoError
        else err)"

definition float_pow :: "libm \<Rightarrow> pyfloat \<Rightarrow> pyfloat \<Rightarrow> pyexc + pynum" where
  "float_pow libm_pow v w =
     (if is_zero w then Inr (FloatNum (Fin 1))
      else if v = NaN then Inr (FloatNum NaN)
      else if w = NaN then Inr (FloatNum (if v = Fin 1 then Fin 1 else NaN))
      else if is_inf w then
        (let a = float_abs v in
         if a = Fin 1 then Inr (FloatNum (Fin 1))
         else if float_gt_zero w = float_gt_one a then Inr (FloatNum PInf)
         else Inr (FloatNum (Fin 0)))
      else if is_inf v then
        (if float_gt_zero w
         then Inr (FloatNum (if is_odd_integer w then v else PInf))
         else Inr (FloatNum (if is_odd_integer w then signed_zero (is_negative v) else Fin 0)))
      else if is_zero v then
        (if float_lt_zero w
         then Inl (ZeroDivisionError ''0.0 cannot be raised to a negative power'')
         else Inr (FloatNum (if is_odd_integer w then v else Fin 0)))
      else if float_lt_zero v \<and> not_integral w then Inr ComplexNum
      else
        (let negate_result = (float_lt_zero v \<and> is_odd_integer w);
             iv = (if float_lt_zero v then float_neg v else v)
         in if iv = Fin 1 then Inr (FloatNum (if negate_result then Fin (- 1) else Fin 1))
            else
              (let r = libm_pow iv w;
                   ix = (if negate_result then float_neg (fst r) else fst r)
               in if adjust_erange r = NoError then Inr (FloatNum ix)
                  else if adjust_erange r = ERANGE
                    then Inl (OverflowError (''(34, '' @ quoted ''Numerical result out of range''
                                              @ '')''))
                  else Inl (ValueError (''(33, '' @ quoted ''Numerical argument out of domain''
                                         @ '')'')))))"

section \<open>Arithmetic evaluator\<close>

text \<open>
  \<open>str(v)\<close> for a value of the slot mapping, as an f-string prints it; the \<open>repr\<close> of a
  string inside a list chooses its quotes and escapes as Python does.
\<close>

definition hex_digit :: "nat \<Rightarrow> char" where
  "hex_digit d = (if d < 10 then char_of (48 + d) else char_of (87 + d))"

definition repr_char :: "char \<Rightarrow> char \<Rightarrow> string" where
  "repr_char q c =
     (if c = CHR 0x5C then [CHR 0x5C, CHR 0x5C]
      else if c = q then [CHR 0x5C, q]
      else if c = CHR 0x0A then [CHR 0x5C, CHR ''n'']
      else if c = CHR 0x0D then [CHR 0x5C, CHR ''r'']
      else if c = CHR 0x09 then [CHR 0x5C, CHR ''t'']
      else if ord c < 32 \<or> ord c = 127
        then [CHR 0x5C, CHR ''x'', hex_digit (ord c div 16), hex_digit (ord c mod 16)]
      else [c])"

definition repr_str :: "string \<Rightarrow> string" where
  "repr_str s =
     (let q = (if CHR 0x27 \<in> set s \<and> CHR 0x22 \<notin> set s then CHR 0x22 else CHR 0x27)
      in [q] @ concat (map (repr_char q) s) @ [q])"

fun str_val :: "pyval \<Rightarrow> string" where
  "str_val (Str s) = s"
| "str_val (StrList xs) = ''['' @ join '', '' (map repr_str xs) @ '']''"

text \<open>\<open>len(v)\<close> and the items \<open>for x in v\<close> visits: of a string, its characters.\<close>

fun items :: "pyval \<Rightarrow> string list" where
  "items (Str s) = map (\<lambda>c. [c]) s"
| "items (StrList xs) = xs"

text \<open>
  The conversion loop: \<open>Inl\<close> is the message returned for the first string that
  \<open>float\<close> rejects.
\<close>

fun convert_all :: "string list \<Rightarrow> string + pyfloat list" where
  "convert_all [] = Inr []"
| "convert_all (num_str # others) =
     (case float_of_str num_str of
        Inl e \<Rightarrow> Inl (''Error: '' @ quoted num_str @ '' is not a valid number'')
      | Inr x \<Rightarrow>
          (case convert_all others of
             Inl msg \<Rightarrow> Inl msg
           | Inr xs \<Rightarrow> Inr (x # xs)))"

text \<open>\<open>sum(xs)\<close> adds the items to the integer \<open>0\<close> from left to right.\<close>

definition float_sum :: "pyfloat list \<Rightarrow> pyfloat" where
  "float_sum xs = foldl float_add (Fin 0) xs"

text \<open>The loop \<open>for num in float_numbers: result *= num\<close>.\<close>

fun multiply_loop :: "pyfloat \<Rightarrow> pyfloat list \<Rightarrow> pyfloat" where
  "multiply_loop result [] = result"
| "multiply_loop result (num # nums) = multiply_loop (float_mul result num) nums"

text \<open>The loop \<open>for num in float_numbers[1:]: result /= num\<close>.\<close>

fun divide_loop :: "pyfloat \<Rightarrow> pyfloat list \<Rightarrow> pyexc + pyfloat" where
  "divide_loop result [] = Inr result"
| "divide_loop result (num # nums) =
     (case float_div result num of
        Inl e \<Rightarrow> Inl e
      | Inr q \<Rightarrow> divide_loop q nums)"

text \<open>
  The symbols of the operations; the multiplication sign, the division sign and the
  radical sign are held as their UTF-8 bytes.
\<close>

definition times_sign :: string where
  "times_sign = [CHR 0xC3, CHR 0x97]"

definition division_sign :: string where
  "division_sign = [CHR 0xC3, CHR 0xB7]"

definition radical_sign :: string where
  "radical_sign = [CHR 0xE2, CHR 0x88, CHR 0x9A]"

text \<open>
  The end of \<open>_calculate_result\<close>: the expression, then the result as an integer when
  it equals \<open>int(result)\<close> and rounded to six places otherwise.
\<close>

definition format_result :: "string \<Rightarrow> pynum \<Rightarrow> pyexc + string" where
  "format_result expression result =
     (case result of
        ComplexNum \<Rightarrow>
          Inl (TypeError (''int() argument must be a string, a bytes-like object or a real ''
                          @ ''number, not '' @ quoted ''complex''))
      | FloatNum x \<Rightarrow>
          (case float_int x of
             Inl e \<Rightarrow> Inl e
           | Inr n \<Rightarrow>
               if float_eq_int x n then Inr (expression @ '' = '' @ int_str n)
               else Inr (expression @ '' = '' @ float_repr (round6 x))))"

definition joined :: "string \<Rightarrow> pyfloat list \<Rightarrow> string" where
  "joined operation_symbol float_numbers =
     join ('' '' @ operation_symbol @ '' '') (map float_repr float_numbers)"

text \<open>
  The body of the \<open>try\<close> block after the conversion loop: it returns a message or raises.
\<close>

definition compute :: "libm \<Rightarrow> pyval \<Rightarrow> pyfloat list \<Rightarrow> pyexc + string" where
  "compute libm_pow operation float_numbers =
     (if operation = Str ''add'' then
        format_result (joined ''+'' float_numbers) (FloatNum (float_sum float_numbers))
      else if operation = Str ''subtract'' then
        format_result (joined ''-'' float_numbers)
          (FloatNum (float_sub (hd float_numbers) (float_sum (tl float_numbers))))
      else if operation = Str ''multiply'' then
        format_result (joined times_sign float_numbers)
          (FloatNum (multiply_loop (Fin 1) float_numbers))
      else if operation = Str ''divide'' then
        (if list_ex is_zero (tl float_numbers) then Inr ''Error: Cannot divide by zero''
         else (case divide_loop (hd float_numbers) (tl float_numbers) of
                 Inl e \<Rightarrow> Inl e
               | Inr result \<Rightarrow>
                   format_result (joined division_sign float_numbers) (FloatNum result)))
      else if operation = Str ''power'' then
        (if length float_numbers \<noteq> 2
         then Inr ''Error: Power operation requires exactly two numbers''
         else (case float_pow libm_pow (float_numbers ! 0) (float_numbers ! 1) of
                 Inl e \<Rightarrow> Inl e
               | Inr result \<Rightarrow> format_result (joined ''^'' float_numbers) result))
      else if operation = Str ''sqrt'' then
        (if length float_numbers \<noteq> 1
         then Inr ''Error: Square root operation requires exactly one number''
         else if float_lt_zero (float_numbers ! 0)
         then Inr ''Error: Cannot calculate square root of negative number''
         else (case float_pow libm_pow (float_numbers ! 0) (Fin (1 / 2)) of
                 Inl e \<Rightarrow> Inl e
               | Inr result \<Rightarrow>
                   format_result
                     (radical_sign @ ''('' @ float_repr (float_numbers ! 0) @ '')'') result))
      else Inr (''Error: Unknown operation '' @ quoted (str_val operation)
                @ ''. Supported operations: add, subtract, multiply, divide, power, sqrt''))"

text \<open>The \<open>try\<close> block with its two handlers.\<close>

definition try_block :: "libm \<Rightarrow> pyval \<Rightarrow> string list \<Rightarrow> string" where
  "try_block libm_pow operation numbers =
     (case convert_all numbers of
        Inl msg \<Rightarrow> msg
      | Inr float_numbers \<Rightarrow>
          (case compute libm_pow operation float_numbers of
             Inr msg \<Rightarrow> msg
           | Inl e \<Rightarrow>
               if is_overflow_error e then ''Error: Calculation result is too large''
               else ''Error: Calculation failed - '' @ exc_str e))"

text \<open>
  \<open>_calculate_result\<close>. The hd and tl of \<open>compute\<close> are read only on lists that the
  checks before have found to be long enough.
\<close>

definition calculate_result :: "libm \<Rightarrow> slots \<Rightarrow> pyexc + string" where
  "calculate_result libm_pow data =
     (let operation = (case map_of data ''operation'' of None \<Rightarrow> Str ''add'' | Some v \<Rightarrow> v);
          numbers = (case map_of data ''numbers'' of None \<Rightarrow> StrList [] | Some v \<Rightarrow> v)
      in if \<not> truthy numbers then Inr ''Error: No numbers provided for calculation''
         else if operation = Str ''sqrt'' \<and> length (items numbers) < 1
           then Inr ''Error: Square root operation requires at least one number''
         else if operation \<noteq> Str ''sqrt'' \<and> length (items numbers) < 2
           then Inr ''Error: Need at least two numbers for calculation''
         else if 10 < length (items numbers)
           then Inr ''Error: Too many numbers provided (maximum 10)''
         else Inr (try_block libm_pow operation (items numbers)))"

section \<open>Action selector and executor\<close>

datatype ActionType = ASK_FOR_INFO | CALL_API | ANSWER_DIRECTLY

fun action_value :: "ActionType \<Rightarrow> string" where
  "action_value ASK_FOR_INFO = ''ask_for_info''"
| "action_value CALL_API = ''call_api''"
| "action_value ANSWER_DIRECTLY = ''answer_directly''"

text \<open>
  The second component of what \<open>decide_action\<close> returns is a dictionary; a key that a
  variant does not set is \<open>None\<close> here, and reading it raises \<open>KeyError\<close>.
\<close>

record action_data =
  a_missing_fields :: "string list option"
  a_intent :: "string option"
  a_message :: "string option"
  a_endpoint :: "string option"
  a_data :: "slots option"

definition intent_messages :: "(string \<times> string) list" where
  "intent_messages =
    [(''calculate'', ''I need to know what numbers you want to calculate with.''),
     (''weather'', ''I need to know which location you want weather information for.''),
     (''book_flight'', ''I need the origin, destination, and date for your flight.''),
     (''send_email'', ''I need the recipient and subject for your email.''),
     (''search'', ''I need to know what you want to search for.''),
     (''schedule_meeting'', ''I need to know who to meet with and when.'')]"

definition field_messages :: "(string \<times> string) list" where
  "field_messages =
    [(''operation'',
      ''What operation would you like to perform? (add, subtract, multiply, divide)''),
     (''numbers'', ''What numbers would you like to calculate with?''),
     (''location'', ''Which location would you like weather information for?''),
     (''origin'', ''Where are you departing from?''),
     (''destination'', ''Where are you traveling to?''),
     (''date'', ''What date would you like?''),
     (''recipient'', ''Who should I send the email to?''),
     (''subject'', ''What should the email subject be?''),
     (''message'', ''What message would you like to send?''),
     (''query'', ''What would you like to search for?''),
     (''participants'', ''Who should attend the meeting?''),
     (''duration'', ''How long should the meeting be?'')]"

definition generate_missing_info_message :: "string \<Rightarrow> string list \<Rightarrow> string" where
  "generate_missing_info_message intent missing_fields =
     (let base_message = (case map_of intent_messages intent of
                            None \<Rightarrow> ''I need more information to help you.''
                          | Some m \<Rightarrow> m)
      in case missing_fields of
           [field] \<Rightarrow>
             base_message @ '' '' @
               (case map_of field_messages field of
                  None \<Rightarrow> ''Please provide '' @ field @ ''.''
                | Some m \<Rightarrow> m)
         | _ \<Rightarrow> base_message)"

text \<open>\<open>data.get(key)\<close> and \<open>data.get(key, default)\<close> printed in an f-string.\<close>

definition get_str :: "slots \<Rightarrow> string \<Rightarrow> string" where
  "get_str data key = (case map_of data key of None \<Rightarrow> ''None'' | Some v \<Rightarrow> str_val v)"

definition get_str_or :: "slots \<Rightarrow> string \<Rightarrow> string \<Rightarrow> string" where
  "get_str_or data key fallback =
     (case map_of data key of None \<Rightarrow> fallback | Some v \<Rightarrow> str_val v)"

definition generate_direct_answer :: "string \<Rightarrow> slots \<Rightarrow> string" where
  "generate_direct_answer intent data =
     (if intent = ''search''
      then ''I'' @ [CHR 0x27] @ ''ll search for information about ''
           @ quoted (get_str_or data ''query'' []) @ '' for you.''
      else ''I understand you want to '' @ intent @ ''. Let me help you with that.'')"

definition decide_action :: "string \<Rightarrow> string list \<Rightarrow> slots \<Rightarrow> ActionType \<times> action_data" where
  "decide_action intent missing_info extracted =
     (if missing_info \<noteq> [] then
        (ASK_FOR_INFO,
         \<lparr>a_missing_fields = Some missing_info, a_intent = Some intent,
          a_message = Some (generate_missing_info_message intent missing_info),
          a_endpoint = None, a_data = None\<rparr>)
      else (case map_of api_endpoints intent of
              Some endpoint \<Rightarrow>
                (CALL_API,
                 \<lparr>a_missing_fields = None, a_intent = Some intent, a_message = None,
                  a_endpoint = Some endpoint, a_data = Some extracted\<rparr>)
            | None \<Rightarrow>
                (ANSWER_DIRECTLY,
                 \<lparr>a_missing_fields = None, a_intent = Some intent,
                  a_message = Some (generate_direct_answer intent extracted),
                  a_endpoint = None, a_data = Some extracted\<rparr>)))"

text \<open>
  The dictionary that \<open>execute_action\<close> returns (the ExecutionResult), each key with
  the prefix \<open>x_\<close>; a key that is not set is \<open>None\<close>.
\<close>

record exec_result =
  x_type :: string
  x_response :: "string option"
  x_missing_fields :: "string list option"
  x_intent :: "string option"
  x_endpoint :: "string option"
  x_result :: "string option"
  x_status :: "string option"
  x_error_type :: "string option"
  x_data :: "slots option"

definition api_response :: "string \<Rightarrow> string \<Rightarrow> string \<Rightarrow> exec_result" where
  "api_response endpoint result status =
     \<lparr>x_type = ''api_response'', x_response = None, x_missing_fields = None,
      x_intent = None, x_endpoint = Some endpoint, x_result = Some result,
      x_status = Some status, x_error_type = None, x_data = None\<rparr>"

definition call_calculator_api :: "libm \<Rightarrow> slots \<Rightarrow> exec_result" where
  "call_calculator_api libm_pow data =
     (case calculate_result libm_pow data of
        Inr result \<Rightarrow>
          if starts_with ''Error:'' result
          then (api_response ''calculator'' result ''error'')
                 \<lparr>x_error_type := Some ''calculation_error'', x_data := Some data\<rparr>
          else (api_response ''calculator'' result ''success'')\<lparr>x_data := Some data\<rparr>
      | Inl e \<Rightarrow>
          (api_response ''calculator'' (''Error: Calculator API failed - '' @ exc_str e) ''error'')
            \<lparr>x_error_type := Some ''api_error'', x_data := Some data\<rparr>)"

definition call_api :: "libm \<Rightarrow> string \<Rightarrow> slots \<Rightarrow> exec_result" where
  "call_api libm_pow endpoint data =
     (if endpoint = ''calculator_api'' then call_calculator_api libm_pow data
      else if endpoint = ''weather_api'' then
        api_response ''weather''
          (''Weather information for '' @ get_str_or data ''location'' ''unknown location'')
          ''success''
      else if endpoint = ''flight_booking_api'' then
        api_response ''flight_booking''
          (''Flight booked from '' @ get_str data ''origin'' @ '' to ''
           @ get_str data ''destination'' @ '' on '' @ get_str data ''date'')
          ''success''
      else if endpoint = ''email_api'' then
        api_response ''email''
          (''Email sent to '' @ get_str data ''recipient'' @ '' with subject: ''
           @ get_str data ''subject'')
          ''success''
      else if endpoint = ''search_api'' then
        api_response ''search'' (''Search results for: '' @ get_str data ''query'') ''success''
      else if endpoint = ''calendar_api'' then
        api_response ''calendar''
          (''Meeting scheduled with '' @ get_str data ''participants'' @ '' on ''
           @ get_str data ''date'')
          ''success''
      else api_response endpoint ''API call completed'' ''success'')"

text \<open>\<open>action_data[key]\<close>.\<close>

definition key_of :: "string \<Rightarrow> 'a option \<Rightarrow> pyexc + 'a" where
  "key_of name v = (case v of None \<Rightarrow> Inl (KeyError (quoted name)) | Some x \<Rightarrow> Inr x)"

definition execute_action :: "libm \<Rightarrow> ActionType \<Rightarrow> action_data \<Rightarrow> pyexc + exec_result" where
  "execute_action libm_pow action_type d =
     (case action_type of
        ASK_FOR_INFO \<Rightarrow>
          (case key_of ''message'' (a_message d) of Inl e \<Rightarrow> Inl e | Inr message \<Rightarrow>
          (case key_of ''missing_fields'' (a_missing_fields d) of Inl e \<Rightarrow> Inl e | Inr missing \<Rightarrow>
          (case key_of ''intent'' (a_intent d) of Inl e \<Rightarrow> Inl e | Inr intent \<Rightarrow>
             Inr \<lparr>x_type = ''ask_for_info'', x_response = Some message,
                  x_missing_fields = Some missing, x_intent = Some intent,
                  x_endpoint = None, x_result = None, x_status = None,
                  x_error_type = None, x_data = None\<rparr>)))
      | CALL_API \<Rightarrow>
          (case key_of ''endpoint'' (a_endpoint d) of Inl e \<Rightarrow> Inl e | Inr endpoint \<Rightarrow>
          (case key_of ''data'' (a_data d) of Inl e \<Rightarrow> Inl e | Inr data \<Rightarrow>
             Inr (call_api libm_pow endpoint data)))
      | ANSWER_DIRECTLY \<Rightarrow>
          (case key_of ''message'' (a_message d) of Inl e \<Rightarrow> Inl e | Inr message \<Rightarrow>
          (case key_of ''intent'' (a_intent d) of Inl e \<Rightarrow> Inl e | Inr intent \<Rightarrow>
             Inr \<lparr>x_type = ''direct_answer'', x_response = Some message,
                  x_missing_fields = None, x_intent = Some intent,
                  x_endpoint = None, x_result = None, x_status = None,
                  x_error_type = None, x_data = None\<rparr>)))"

section \<open>The pipeline\<close>

text \<open>The dictionary that \<open>process_input\<close> returns, each key with the prefix \<open>o_\<close>.\<close>

record response =
  o_input :: string
  o_intent_analysis :: classification
  o_missing_info :: "string list"
  o_action_taken :: string
  o_result :: exec_result

definition process_input :: "libm \<Rightarrow> string \<Rightarrow> pyexc + response" where
  "process_input libm_pow user_input =
     (case parse_intent user_input of
        Inl e \<Rightarrow> Inl e
      | Inr intent_result \<Rightarrow>
          (let missing_info =
                 check_missing_info (c_intent intent_result) (c_extracted_info intent_result);
               decision = decide_action (c_intent intent_result) missing_info
                            (c_extracted_info intent_result)
           in case execute_action libm_pow (fst decision) (snd decision) of
                Inl e \<Rightarrow> Inl e
              | Inr result \<Rightarrow>
                  Inr \<lparr>o_input = user_input, o_intent_analysis = intent_result,
                       o_missing_info = missing_info,
                       o_action_taken = action_value (fst decision),
                       o_result = result\<rparr>))"

section \<open>Auxiliary notions for the proofs\<close>

text \<open>Whether every match of a pattern captures the group \<open>i\<close>.\<close>

fun sets_group :: "nat \<Rightarrow> regex \<Rightarrow> bool" where
  "sets_group i (Grp j r) = (i = j \<or> sets_group i r)"
| "sets_group i (Cat a b) = (sets_group i a \<or> sets_group i b)"
| "sets_group i (Alt a b) = (sets_group i a \<and> sets_group i b)"
| "sets_group i r = False"

text \<open>A later state of the matcher keeps the number of groups and every group captured.\<close>

definition keeps :: "mstate \<Rightarrow> mstate \<Rightarrow> bool" where
  "keeps s t = (length (caps t) = length (caps s) \<and>
                (\<forall>k < length (caps s). caps s ! k \<noteq> None \<longrightarrow> caps t ! k \<noteq> None))"

text \<open>The number of groups that \<open>_extract_info_from_match\<close> reads for an intent.\<close>

definition min_groups :: "string \<Rightarrow> nat" where
  "min_groups i = (if i = ''send_email'' \<or> i = ''schedule_meeting'' then 2 else 1)"

text \<open>The six intents of the schema.\<close>

definition intents :: "string list" where
  "intents = map fst required_fields"

text \<open>
  The (intent, pattern) pairs in the order in which the two loops of \<open>parse_intent\<close>
  visit them, and the single pass over such pairs that returns the first match.
\<close>

definition flat_patterns :: "(string \<times> regex) list" where
  "flat_patterns = concat (map (\<lambda>(i, ps). map (Pair i) ps) intent_patterns)"

fun first_flat :: "(string \<times> regex) list \<Rightarrow> string \<Rightarrow> (string \<times> rmatch) option" where
  "first_flat [] u = None"
| "first_flat ((i, p) # more_pairs) u =
     (case re_search p u of Some m \<Rightarrow> Some (i, m) | None \<Rightarrow> first_flat more_pairs u)"

text \<open>
  The keyword score in the words of the specification: one point for each keyword that
  occurs in the utterance as a substring, and half a point more when the keyword is one
  of its whitespace-delimited tokens.
\<close>

definition spec_score :: "string list \<Rightarrow> string \<Rightarrow> rat" where
  "spec_score keywords u =
     sum_list (map (\<lambda>k. if str_in k u then 1 + (if k \<in> set (split u) then 1 / 2 else 0) else 0)
                 keywords)"

definition spec_scores :: "string \<Rightarrow> (string \<times> rat) list" where
  "spec_scores u = map (\<lambda>(i, keywords). (i, spec_score keywords u)) intent_keywords"

text \<open>The greatest score, and the first-declared entry that achieves it.\<close>

definition best_score :: "(string \<times> rat) list \<Rightarrow> rat" where
  "best_score kvs = Max (set (map snd kvs))"

definition first_max :: "(string \<times> rat) list \<Rightarrow> string" where
  "first_max kvs = fst (hd (filter (\<lambda>kv. snd kv = best_score kvs) kvs))"

text \<open>
  A call of the evaluator with an operation name and a list of strings, and the
  ExecutionResult of the calculator endpoint for an error message of kind
  \<open>calculation_error\<close>.
\<close>

definition request :: "string \<Rightarrow> string list \<Rightarrow> slots" where
  "request operation numbers = [(''operation'', Str operation), (''numbers'', StrList numbers)]"

definition error_response :: "slots \<Rightarrow> string \<Rightarrow> exec_result" where
  "error_response data message =
     (api_response ''calculator'' message ''error'')
       \<lparr>x_error_type := Some ''calculation_error'', x_data := Some data\<rparr>"

text \<open>The first string of a list that \<open>float\<close> rejects.\<close>

definition first_invalid :: "string list \<Rightarrow> string option" where
  "first_invalid numbers = find (\<lambda>s. isl (float_of_str s)) numbers"


section \<open>Properties of the completeness checker\<close>

lemma appends_field_iff: "appends_field info field = absent_or_empty info field"
proof (cases "map_of info field")
  case None
  then show ?thesis by (simp add: appends_field_def absent_or_empty_def)
next
  case (Some v)
  then show ?thesis by (cases v) (simp_all add: appends_field_def absent_or_empty_def)
qed

lemma missing_loop_filter:
  "missing_loop info required = filter (absent_or_empty info) required"
  by (induction required) (simp_all add: appends_field_iff)

text \<open>
  Claim C8. For every intent and slot mapping, \<open>check_missing_info\<close> returns exactly the
  required fields of the intent that are absent from the mapping, empty strings or empty
  lists, in the declared order of the required fields; for an intent that is not in the
  schema it returns the empty list.
\<close>

theorem check_missing_info_exact:
  "check_missing_info intent info =
     (case map_of required_fields intent of
        None \<Rightarrow> []
      | Some required \<Rightarrow> filter (absent_or_empty info) required)"
  by (simp add: check_missing_info_def missing_loop_filter split: option.splits)

section \<open>Properties of the matcher\<close>

declare ms.simps(8) [simp del]

lemma nth_update_keeps: "k < length xs \<Longrightarrow> xs ! k \<noteq> None \<Longrightarrow> xs[j := Some g] ! k \<noteq> None"
  by (cases "j = k") simp_all

lemma caps_advance: "caps (advance n s) = caps s"
  by (cases s) simp

lemma keeps_refl: "keeps s s"
  by (simp add: keeps_def)

lemma keeps_trans: "keeps s u \<Longrightarrow> keeps u t \<Longrightarrow> keeps s t"
  by (simp add: keeps_def)

lemma keeps_advance: "keeps s (advance n s)"
  by (simp add: keeps_def caps_advance)

lemma keeps_update: "keeps s t \<Longrightarrow> keeps s (MState p r ((caps t)[j := Some g]))"
  by (simp add: keeps_def nth_update_keeps del: not_None_eq)

lemma ms_keeps: "t \<in> set (ms r s) \<Longrightarrow> keeps s t"
proof (induction r s arbitrary: t rule: ms.induct)
  case (1 w s)
  then show ?case by (auto simp: keeps_advance split: if_splits)
next
  case (2 cs s)
  then show ?case by (auto simp: keeps_advance split: if_splits list.splits)
next
  case (3 greedy lo hi cs s)
  then show ?case by (auto simp: keeps_advance)
next
  case (4 a b s)
  from "4.prems" obtain u where u: "u \<in> set (ms a s)" and t: "t \<in> set (ms b u)" by auto
  from "4.IH"(1)[OF u] "4.IH"(2)[OF u t] show ?case by (rule keeps_trans)
next
  case (5 a b s)
  then show ?case by auto
next
  case (6 i r s)
  from "6.prems" obtain u where u: "u \<in> set (ms r s)"
    and t: "t = MState (prev u) (rest u)
                  ((caps u)[i - 1 := Some (take (length (rest s) - length (rest u)) (rest s))])"
    by auto
  from "6.IH"[OF u] show ?case unfolding t by (rule keeps_update)
next
  case (7 r s)
  then show ?case by (auto simp: keeps_refl)
next
  case (8 r s)
  from "8.prems" have "t \<in> set (concat (map (\<lambda>t. if length (rest t) < length (rest s)
                                              then ms (Star r) t else []) (ms r s)) @ [s])"
    by (subst (asm) ms.simps(8))
  then consider "t = s"
    | u where "u \<in> set (ms r s)" "length (rest u) < length (rest s)" "t \<in> set (ms (Star r) u)"
    by (auto split: if_splits)
  then show ?case
  proof cases
    case 1
    then show ?thesis by (simp add: keeps_refl)
  next
    case (2 u)
    from "8.IH"(1)[OF 2(1)] "8.IH"(2)[OF 2(1) 2(2) 2(3)] show ?thesis by (rule keeps_trans)
  qed
next
  case (9 s)
  then show ?case by (auto simp: keeps_refl split: if_splits)
next
  case (10 s)
  then show ?case by (auto simp: keeps_refl split: if_splits)
qed

lemma ms_sets_group:
  "t \<in> set (ms r s) \<Longrightarrow> sets_group i r \<Longrightarrow> 1 \<le> i \<Longrightarrow> i \<le> length (caps s) \<Longrightarrow>
   caps t ! (i - 1) \<noteq> None"
proof (induction r s arbitrary: t rule: ms.induct)
  case (4 a b s)
  from "4.prems"(1) obtain u where u: "u \<in> set (ms a s)" and t: "t \<in> set (ms b u)" by auto
  have ku: "keeps s u" using u by (rule ms_keeps)
  have kt: "keeps u t" using t by (rule ms_keeps)
  show ?case
  proof (cases "sets_group i a")
    case True
    have "caps u ! (i - 1) \<noteq> None" using "4.IH"(1)[OF u True "4.prems"(3,4)] .
    with kt ku "4.prems"(3,4) show ?thesis by (auto simp: keeps_def)
  next
    case False
    with "4.prems"(2) have b: "sets_group i b" by simp
    from ku "4.prems"(4) have "i \<le> length (caps u)" by (simp add: keeps_def)
    from "4.IH"(2)[OF u t b "4.prems"(3) this] show ?thesis .
  qed
next
  case (5 a b s)
  then show ?case by auto
next
  case (6 j r s)
  from "6.prems"(1) obtain u where u: "u \<in> set (ms r s)"
    and t: "t = MState (prev u) (rest u)
                  ((caps u)[j - 1 := Some (take (length (rest s) - length (rest u)) (rest s))])"
    by auto
  have ku: "keeps s u" using u by (rule ms_keeps)
  show ?case
  proof (cases "i = j")
    case True
    with ku "6.prems"(3,4) show ?thesis unfolding t by (simp add: keeps_def)
  next
    case False
    with "6.prems"(2) have "sets_group i r" by simp
    from "6.IH"[OF u this "6.prems"(3,4)] ku "6.prems"(3,4)
    show ?thesis unfolding t by (simp add: keeps_def nth_update_keeps del: not_None_eq)
  qed
qed simp_all

lemma search_from_groups:
  "search_from r p s = Some m \<Longrightarrow>
   length (groups m) = ngroups r \<and>
   (\<forall>i. 1 \<le> i \<and> i \<le> ngroups r \<and> sets_group i r \<longrightarrow> groups m ! (i - 1) \<noteq> None)"
proof (induction r p s rule: search_from.induct)
  case (1 r p s)
  let ?s0 = "MState p s (replicate (ngroups r) None)"
  show ?case
  proof (cases "ms r ?s0")
    case Nil
    with "1.prems" obtain c s' where s: "s = c # s'" and m: "search_from r (Some c) s' = Some m"
      by (auto split: list.splits)
    from "1.IH"[OF Nil s m] show ?thesis .
  next
    case (Cons t ts)
    then have t: "t \<in> set (ms r ?s0)" by simp
    from Cons "1.prems" have m: "groups m = caps t" by auto
    have "keeps ?s0 t" using t by (rule ms_keeps)
    then have len: "length (caps t) = ngroups r" by (simp add: keeps_def)
    have "\<And>i. 1 \<le> i \<Longrightarrow> i \<le> ngroups r \<Longrightarrow> sets_group i r \<Longrightarrow> caps t ! (i - 1) \<noteq> None"
      using ms_sets_group[OF t] by simp
    with len m show ?thesis by simp
  qed
qed

lemma re_search_length: "re_search r s = Some m \<Longrightarrow> length (groups m) = ngroups r"
  using search_from_groups[of r None s m] by (simp add: re_search_def)

lemma re_search_group:
  "re_search r s = Some m \<Longrightarrow> sets_group i r \<Longrightarrow> 1 \<le> i \<Longrightarrow> i \<le> ngroups r \<Longrightarrow>
   \<exists>g. groups m ! (i - 1) = Some g"
  using search_from_groups[of r None s m] by (auto simp: re_search_def)

lemma first_pattern_Some:
  "first_pattern ps u = Some m \<Longrightarrow> \<exists>p \<in> set ps. re_search p u = Some m"
  by (induction ps) (auto split: option.splits)

lemma pattern_phase_Some:
  "pattern_phase tbl u = Some (i, m) \<Longrightarrow>
   \<exists>ps p. (i, ps) \<in> set tbl \<and> p \<in> set ps \<and> re_search p u = Some m"
proof (induction tbl)
  case Nil
  then show ?case by simp
next
  case (Cons e tbl)
  obtain j ps where e: "e = (j, ps)" by (cases e)
  show ?case
  proof (cases "first_pattern ps u")
    case None
    with Cons e show ?thesis by auto
  next
    case (Some m')
    with Cons.prems e have "i = j" "m' = m" by auto
    with Some first_pattern_Some[of ps u m] e show ?thesis by auto
  qed
qed

lemma intent_patterns_groups:
  "list_all (\<lambda>(i, ps). i \<in> set intents \<and> list_all (\<lambda>p. min_groups i \<le> ngroups p) ps)
     intent_patterns"
  by code_simp

lemma pattern_phase_intent_patterns:
  assumes "pattern_phase intent_patterns u = Some (i, m)"
  shows "i \<in> set intents \<and> min_groups i \<le> length (groups m)"
proof -
  from pattern_phase_Some[OF assms] obtain ps p
    where e: "(i, ps) \<in> set intent_patterns" and p: "p \<in> set ps"
      and m: "re_search p u = Some m" by blast
  from intent_patterns_groups e p have "i \<in> set intents \<and> min_groups i \<le> ngroups p"
    by (auto simp: list_all_iff)
  with re_search_length[OF m] show ?thesis by simp
qed

lemma strip_or_empty_total: "i < length gs \<Longrightarrow> \<exists>v. strip_or_empty gs i = Inr v"
  by (cases "gs ! i") (simp_all add: strip_or_empty_def tuple_at_def group_truthy_def strip_opt_def)

lemma extract_calculate_total:
  assumes "1 \<le> length gs"
  shows "\<exists>v. extract_calculate gs u = Inr v"
proof -
  have t: "tuple_at gs 0 = Inr (gs ! 0)" using assms by (cases gs) (simp_all add: tuple_at_def)
  show ?thesis
  proof (cases "2 \<le> length gs \<and> group_truthy (gs ! 1)")
    case True
    then show ?thesis by (simp add: extract_calculate_def)
  next
    case False
    then show ?thesis by (simp add: extract_calculate_def t Let_def)
  qed
qed

lemma extract_info_from_match_total:
  assumes "min_groups i \<le> length (groups m)"
  shows "\<exists>v. extract_info_from_match i m u = Inr v"
proof -
  let ?g = "groups m"
  from assms have 1: "0 < length ?g"
    by (cases ?g) (simp_all add: min_groups_def split: if_splits)
  from strip_or_empty_total[OF 1] obtain v0 where v0: "strip_or_empty ?g 0 = Inr v0" ..
  consider (calc) "i = ''calculate''"
    | (weather) "i \<noteq> ''calculate''" "i = ''weather''"
    | (flight) "i \<noteq> ''calculate''" "i \<noteq> ''weather''" "i = ''book_flight''"
    | (two) "i = ''send_email'' \<or> i = ''schedule_meeting''"
    | (search) "i \<noteq> ''calculate''" "i \<noteq> ''weather''" "i \<noteq> ''book_flight''"
        "i \<noteq> ''send_email''" "i = ''search''"
    | (other) "i \<noteq> ''calculate''" "i \<noteq> ''weather''" "i \<noteq> ''book_flight''"
        "i \<noteq> ''send_email''" "i \<noteq> ''search''" "i \<noteq> ''schedule_meeting''"
    by blast
  then show ?thesis
  proof cases
    case calc
    with extract_calculate_total[of ?g u] 1 show ?thesis
      by (simp add: extract_info_from_match_def)
  next
    case weather
    then show ?thesis by (simp add: extract_info_from_match_def v0)
  next
    case flight
    show ?thesis
    proof (cases "3 \<le> length ?g")
      case True
      then have "1 < length ?g" "2 < length ?g" by simp_all
      from strip_or_empty_total[OF this(1)] strip_or_empty_total[OF this(2)]
      obtain v1 v2 where "strip_or_empty ?g 1 = Inr v1" "strip_or_empty ?g 2 = Inr v2" by blast
      with flight True show ?thesis by (simp add: extract_info_from_match_def v0)
    next
      case False
      show ?thesis
      proof (cases "2 \<le> length ?g")
        case True
        then have "1 < length ?g" by simp
        from strip_or_empty_total[OF this]
        obtain v1 where "strip_or_empty ?g 1 = Inr v1" by blast
        with flight True \<open>\<not> 3 \<le> length ?g\<close> show ?thesis
          by (simp add: extract_info_from_match_def v0)
      next
        case False
        with flight \<open>\<not> 3 \<le> length ?g\<close> show ?thesis
          by (simp add: extract_info_from_match_def)
      qed
    qed
  next
    case two
    with assms have "1 < length ?g" by (auto simp: min_groups_def)
    from strip_or_empty_total[OF this]
    obtain v1 where v1: "strip_or_empty ?g 1 = Inr v1" by blast
    from two show ?thesis
    proof
      assume "i = ''send_email''"
      with v1 show ?thesis by (simp add: extract_info_from_match_def v0)
    next
      assume "i = ''schedule_meeting''"
      with v1 show ?thesis by (simp add: extract_info_from_match_def v0)
    qed
  next
    case search
    then show ?thesis by (simp add: extract_info_from_match_def v0)
  next
    case other
    then show ?thesis by (simp add: extract_info_from_match_def)
  qed
qed

section \<open>The classifier and the pipeline return\<close>

lemma keyword_patterns_groups:
  "list_all (\<lambda>p. sets_group 1 p \<and> 1 \<le> ngroups p)
     (location_patterns @ date_patterns @ [subject_pattern, with_pattern])"
  "sets_group 1 from_to_pattern \<and> sets_group 2 from_to_pattern \<and> ngroups from_to_pattern = 2"
  by code_simp+

lemma group_strip_total:
  assumes "re_search p u = Some m" and "sets_group i p" and "1 \<le> i" and "i \<le> ngroups p"
  shows "\<exists>v. group_strip m i = Inr v"
proof -
  from re_search_group[OF assms] obtain g where g: "groups m ! (i - 1) = Some g" ..
  from re_search_length[OF assms(1)] assms(3,4) have "1 \<le> i \<and> i \<le> length (groups m)" by simp
  with g show ?thesis by (simp add: group_strip_def group_def strip_opt_def)
qed

lemma first_group1_total:
  "list_all (\<lambda>p. sets_group 1 p \<and> 1 \<le> ngroups p) ps \<Longrightarrow>
   \<exists>v. first_group1 ps u key extracted = Inr v"
proof (induction ps)
  case Nil
  show ?case by simp
next
  case (Cons p ps)
  show ?case
  proof (cases "re_search p u")
    case None
    with Cons show ?thesis by simp
  next
    case (Some m)
    from Cons.prems have "sets_group 1 p" "1 \<le> ngroups p" by simp_all
    from group_strip_total[OF Some this(1) _ this(2)] obtain v where "group_strip m 1 = Inr v"
      by auto
    with Some show ?thesis by simp
  qed
qed

lemma first_group1_known:
  "ps \<in> {location_patterns, date_patterns, [subject_pattern], [with_pattern]} \<Longrightarrow>
   \<exists>v. first_group1 ps u key extracted = Inr v"
  using keyword_patterns_groups(1) by (intro first_group1_total) auto

lemma extract_info_by_keywords_total: "\<exists>v. extract_info_by_keywords k u = Inr v"
proof -
  have loc: "\<And>e key. \<exists>v. first_group1 location_patterns u key e = Inr v"
    and dat: "\<And>e key. \<exists>v. first_group1 date_patterns u key e = Inr v"
    and sub: "\<And>e key. \<exists>v. first_group1 [subject_pattern] u key e = Inr v"
    and wit: "\<And>e key. \<exists>v. first_group1 [with_pattern] u key e = Inr v"
    by (rule first_group1_known, simp)+
  have flight_part: "\<exists>v. (case re_search from_to_pattern u of
                 None \<Rightarrow> Inr []
               | Some m \<Rightarrow>
                   (case group_strip m 1 of
                      Inl e \<Rightarrow> Inl e
                    | Inr origin \<Rightarrow>
                   (case group_strip m 2 of
                      Inl e \<Rightarrow> Inl e
                    | Inr destination \<Rightarrow>
                        Inr [(''origin'', Str origin), (''destination'', Str destination)]))) = Inr v"
  proof (cases "re_search from_to_pattern u")
    case None
    then show ?thesis by simp
  next
    case (Some m)
    from group_strip_total[OF Some, of 1] group_strip_total[OF Some, of 2]
      keyword_patterns_groups(2)
    obtain v1 v2 where "group_strip m 1 = Inr v1" "group_strip m 2 = Inr v2" by auto
    with Some show ?thesis by simp
  qed
  consider (calc) "k = ''calculate''"
    | (weather) "k \<noteq> ''calculate''" "k = ''weather''"
    | (flight) "k \<noteq> ''calculate''" "k \<noteq> ''weather''" "k = ''book_flight''"
    | (email) "k \<noteq> ''calculate''" "k \<noteq> ''weather''" "k \<noteq> ''book_flight''" "k = ''send_email''"
    | (search) "k \<noteq> ''calculate''" "k \<noteq> ''weather''" "k \<noteq> ''book_flight''"
        "k \<noteq> ''send_email''" "k = ''search''"
    | (meeting) "k \<noteq> ''calculate''" "k \<noteq> ''weather''" "k \<noteq> ''book_flight''"
        "k \<noteq> ''send_email''" "k \<noteq> ''search''" "k = ''schedule_meeting''"
    | (other) "k \<noteq> ''calculate''" "k \<noteq> ''weather''" "k \<noteq> ''book_flight''"
        "k \<noteq> ''send_email''" "k \<noteq> ''search''" "k \<noteq> ''schedule_meeting''"
    by blast
  then show ?thesis
  proof cases
    case calc
    then show ?thesis by (simp add: extract_info_by_keywords_def Let_def)
  next
    case weather
    from loc[of "''location''" "[]"] obtain e
      where e: "first_group1 location_patterns u ''location'' [] = Inr e" ..
    from weather show ?thesis
      by (simp add: extract_info_by_keywords_def e split: list.splits)
  next
    case flight
    from flight_part obtain e where e: "(case re_search from_to_pattern u of
                 None \<Rightarrow> Inr []
               | Some m \<Rightarrow>
                   (case group_strip m 1 of
                      Inl e \<Rightarrow> Inl e
                    | Inr origin \<Rightarrow>
                   (case group_strip m 2 of
                      Inl e \<Rightarrow> Inl e
                    | Inr destination \<Rightarrow>
                        Inr [(''origin'', Str origin), (''destination'', Str destination)]))) = Inr e"
      ..
    from flight dat[of "''date''" e] show ?thesis
      by (simp add: extract_info_by_keywords_def e)
  next
    case email
    from email sub show ?thesis by (simp add: extract_info_by_keywords_def Let_def)
  next
    case search
    then show ?thesis by (simp add: extract_info_by_keywords_def)
  next
    case meeting
    from wit[of "''participants''" "[]"] obtain e
      where e: "first_group1 [with_pattern] u ''participants'' [] = Inr e" ..
    from meeting dat[of "''date''" e] show ?thesis
      by (simp add: extract_info_by_keywords_def e del: first_group1.simps)
  next
    case other
    then show ?thesis by (simp add: extract_info_by_keywords_def)
  qed
qed

lemma max_key_from_mem: "max_key_from kv kvs \<in> fst ` set (kv # kvs)"
  by (induction kvs arbitrary: kv) auto

lemma detect_intent_by_keywords_mem:
  "detect_intent_by_keywords u = Some k \<Longrightarrow> k \<in> set intents"
proof -
  assume a: "detect_intent_by_keywords u = Some k"
  have keys: "map fst (intent_scores u) = intents"
    by (simp add: intent_scores_def intent_keywords_def intents_def required_fields_def)
  show ?thesis
  proof (cases "intent_scores u")
    case Nil
    with a show ?thesis by (simp add: detect_intent_by_keywords_def)
  next
    case (Cons kv kvs)
    with a have "k = max_key_from kv kvs"
      by (auto simp: detect_intent_by_keywords_def Let_def split: option.splits if_splits)
    with max_key_from_mem[of kv kvs] Cons have "k \<in> fst ` set (intent_scores u)" by simp
    with keys show ?thesis by (metis set_map)
  qed
qed

lemma parse_intent_total:
  "\<exists>c. parse_intent text = Inr c \<and> c_intent c \<in> set intents"
proof -
  let ?u = "strip (lower text)"
  show ?thesis
  proof (cases "pattern_phase intent_patterns ?u")
    case (Some im)
    obtain i m where im: "im = (i, m)" by (cases im)
    from pattern_phase_intent_patterns[OF Some[unfolded im]]
    have i: "i \<in> set intents" and g: "min_groups i \<le> length (groups m)" by simp_all
    from extract_info_from_match_total[OF g] obtain v
      where "extract_info_from_match i m ?u = Inr v" ..
    with Some im i show ?thesis by (simp add: parse_intent_def)
  next
    case None
    show ?thesis
    proof (cases "detect_intent_by_keywords ?u")
      case (Some k)
      from extract_info_by_keywords_total obtain v
        where "extract_info_by_keywords k ?u = Inr v" ..
      with None Some detect_intent_by_keywords_mem[OF Some] show ?thesis
        by (simp add: parse_intent_def)
    next
      case n: None
      with None show ?thesis
        by (simp add: parse_intent_def intents_def required_fields_def Let_def)
    qed
  qed
qed

lemma endpoints_cover_intents: "i \<in> set intents \<Longrightarrow> \<exists>e. map_of api_endpoints i = Some e"
  by (auto simp: intents_def required_fields_def api_endpoints_def)

lemma decide_action_cases:
  assumes "i \<in> set intents"
  shows "(missing \<noteq> [] \<and> fst (decide_action i missing info) = ASK_FOR_INFO) \<or>
         (missing = [] \<and> fst (decide_action i missing info) = CALL_API)"
  using endpoints_cover_intents[OF assms] by (auto simp: decide_action_def)

lemma execute_decided_total:
  "\<exists>r. execute_action pw (fst (decide_action i missing info)) (snd (decide_action i missing info))
        = Inr r"
  by (simp add: decide_action_def execute_action_def key_of_def split: option.splits)

lemma process_input_shape:
  "\<exists>c r. parse_intent text = Inr c \<and> c_intent c \<in> set intents \<and>
     execute_action pw
       (fst (decide_action (c_intent c) (check_missing_info (c_intent c) (c_extracted_info c))
               (c_extracted_info c)))
       (snd (decide_action (c_intent c) (check_missing_info (c_intent c) (c_extracted_info c))
               (c_extracted_info c))) = Inr r \<and>
     process_input pw text =
       Inr \<lparr>o_input = text, o_intent_analysis = c,
            o_missing_info = check_missing_info (c_intent c) (c_extracted_info c),
            o_action_taken =
              action_value (fst (decide_action (c_intent c)
                 (check_missing_info (c_intent c) (c_extracted_info c)) (c_extracted_info c))),
            o_result = r\<rparr>"
proof -
  from parse_intent_total obtain c where c: "parse_intent text = Inr c" "c_intent c \<in> set intents"
    by blast
  from execute_decided_total obtain r where r: "execute_action pw
       (fst (decide_action (c_intent c) (check_missing_info (c_intent c) (c_extracted_info c))
               (c_extracted_info c)))
       (snd (decide_action (c_intent c) (check_missing_info (c_intent c) (c_extracted_info c))
               (c_extracted_info c))) = Inr r" ..
  with c show ?thesis by (simp add: process_input_def Let_def)
qed

lemma call_api_type: "x_type (call_api pw endpoint data) = ''api_response''"
  by (simp add: call_api_def call_calculator_api_def api_response_def split: sum.splits)

lemma execute_action_type:
  "execute_action pw a d = Inr r \<Longrightarrow>
   x_type r = (case a of ASK_FOR_INFO \<Rightarrow> ''ask_for_info'' | CALL_API \<Rightarrow> ''api_response''
               | ANSWER_DIRECTLY \<Rightarrow> ''direct_answer'')"
  by (cases a)
     (auto simp: execute_action_def key_of_def call_api_type split: option.splits)

text \<open>
  Claim C9. For every input string, \<open>process_input\<close> returns a value and raises
  nothing, whatever the C library's \<open>pow\<close> does; the value returned holds an
  ExecutionResult, which is a request for information or an API response.
\<close>

theorem process_input_total:
  "\<exists>out. process_input libm_pow utterance = Inr out \<and>
     (x_type (o_result out) = ''ask_for_info'' \<or> x_type (o_result out) = ''api_response'')"
proof -
  from process_input_shape[of utterance libm_pow] obtain c r
    where i: "c_intent c \<in> set intents"
      and r: "execute_action libm_pow
       (fst (decide_action (c_intent c) (check_missing_info (c_intent c) (c_extracted_info c))
               (c_extracted_info c)))
       (snd (decide_action (c_intent c) (check_missing_info (c_intent c) (c_extracted_info c))
               (c_extracted_info c))) = Inr r"
      and out: "process_input libm_pow utterance =
       Inr \<lparr>o_input = utterance, o_intent_analysis = c,
            o_missing_info = check_missing_info (c_intent c) (c_extracted_info c),
            o_action_taken =
              action_value (fst (decide_action (c_intent c)
                 (check_missing_info (c_intent c) (c_extracted_info c)) (c_extracted_info c))),
            o_result = r\<rparr>"
    by blast
  from decide_action_cases[OF i, of "check_missing_info (c_intent c) (c_extracted_info c)"
         "c_extracted_info c"] execute_action_type[OF r]
  have "x_type r = ''ask_for_info'' \<or> x_type r = ''api_response''" by auto
  with out show ?thesis by simp
qed

text \<open>
  Claim C10. For every input, the action that \<open>process_input\<close> reports is
  \<open>ask_for_info\<close> or \<open>call_api\<close> and never \<open>answer_directly\<close>: the intent found is
  one of the six intents of the schema, and each of them has an endpoint.
\<close>

theorem action_never_answer_directly:
  "\<exists>out. process_input libm_pow utterance = Inr out \<and>
     c_intent (o_intent_analysis out) \<in> set intents \<and>
     map_of api_endpoints (c_intent (o_intent_analysis out)) \<noteq> None \<and>
     (o_action_taken out = ''ask_for_info'' \<or> o_action_taken out = ''call_api'') \<and>
     o_action_taken out \<noteq> ''answer_directly''"
proof -
  from process_input_shape[of utterance libm_pow] obtain c r
    where i: "c_intent c \<in> set intents"
      and out: "process_input libm_pow utterance =
       Inr \<lparr>o_input = utterance, o_intent_analysis = c,
            o_missing_info = check_missing_info (c_intent c) (c_extracted_info c),
            o_action_taken =
              action_value (fst (decide_action (c_intent c)
                 (check_missing_info (c_intent c) (c_extracted_info c)) (c_extracted_info c))),
            o_result = r\<rparr>"
    by blast
  from decide_action_cases[OF i, of "check_missing_info (c_intent c) (c_extracted_info c)"
         "c_extracted_info c"]
  have "action_value (fst (decide_action (c_intent c)
          (check_missing_info (c_intent c) (c_extracted_info c)) (c_extracted_info c)))
        \<in> {''ask_for_info'', ''call_api''}"
    by auto
  with out i endpoints_cover_intents[OF i] show ?thesis by auto
qed

section \<open>Pattern phase\<close>

lemma first_flat_map:
  "first_flat (map (Pair i) ps @ later) u =
     (case first_pattern ps u of Some m \<Rightarrow> Some (i, m) | None \<Rightarrow> first_flat later u)"
  by (induction ps) (simp_all split: option.splits)

lemma pattern_phase_flat:
  "pattern_phase tbl u = first_flat (concat (map (\<lambda>(i, ps). map (Pair i) ps) tbl)) u"
proof (induction tbl)
  case Nil
  show ?case by simp
next
  case (Cons e tbl)
  obtain i ps where e: "e = (i, ps)" by (cases e)
  show ?case using Cons by (simp add: e first_flat_map split: option.splits)
qed

lemma first_flat_first:
  "\<forall>(i, p) \<in> set pre. re_search p u = None \<Longrightarrow> re_search r u = Some m \<Longrightarrow>
   first_flat (pre @ (a, r) # post) u = Some (a, m)"
  by (induction pre) auto

lemma first_flat_none:
  "\<forall>(i, p) \<in> set pairs. re_search p u = None \<Longrightarrow> first_flat pairs u = None"
  by (induction pairs) auto

lemma flat_patterns_groups:
  "list_all (\<lambda>(i, p). i \<in> set intents \<and> min_groups i \<le> ngroups p) flat_patterns"
  by code_simp

text \<open>
  Claim C6. If the first (intent, pattern) pair in declaration order whose pattern matches
  the normalized utterance is a pattern of the intent \<open>a\<close>, then \<open>parse_intent\<close> returns
  the intent \<open>a\<close> with confidence 0.9 and detection method \<open>pattern\<close>, and the slots are
  extracted from the match of that pattern, whatever the later pairs match.
\<close>

theorem pattern_priority:
  assumes "flat_patterns = pre @ (a, r) # post"
    and "\<forall>(i, p) \<in> set pre. re_search p (strip (lower utterance)) = None"
    and "re_search r (strip (lower utterance)) = Some m"
  shows "\<exists>c. parse_intent utterance = Inr c \<and> c_intent c = a \<and> c_confidence c = 9 / 10 \<and>
             c_detection_method c = ''pattern'' \<and>
             extract_info_from_match a m (strip (lower utterance)) = Inr (c_extracted_info c)"
proof -
  let ?u = "strip (lower utterance)"
  have "pattern_phase intent_patterns ?u = first_flat flat_patterns ?u"
    by (simp add: pattern_phase_flat flat_patterns_def)
  also have "\<dots> = Some (a, m)"
    unfolding assms(1) using assms(2,3) by (rule first_flat_first)
  finally have ph: "pattern_phase intent_patterns ?u = Some (a, m)" .
  from pattern_phase_intent_patterns[OF ph] have "min_groups a \<le> length (groups m)" by simp
  from extract_info_from_match_total[OF this] obtain v
    where "extract_info_from_match a m ?u = Inr v" ..
  with ph show ?thesis by (simp add: parse_intent_def)
qed

theorem pattern_priority_witness:
  "re_search (search_patterns ! 1) (strip (lower ''What is 15 plus 27'')) \<noteq> None \<and>
   (\<exists>c. parse_intent ''What is 15 plus 27'' = Inr c \<and> c_intent c = ''calculate'' \<and>
        c_confidence c = 9 / 10 \<and> c_detection_method c = ''pattern'')"
proof -
  have h1: "flat_patterns =
      [(''calculate'', calculate_patterns ! 0)] @
      (''calculate'', calculate_patterns ! 1) # drop 2 flat_patterns"
    by code_simp
  have h2: "\<forall>(i, p) \<in> set [(''calculate'', calculate_patterns ! 0)].
      re_search p (strip (lower ''What is 15 plus 27'')) = None"
    by code_simp
  have h3: "re_search (calculate_patterns ! 1) (strip (lower ''What is 15 plus 27'')) =
      Some (RMatch ''what is 15 plus 27'' [Some ''15'', Some ''27''])"
    by code_simp
  have h4: "re_search (search_patterns ! 1) (strip (lower ''What is 15 plus 27'')) \<noteq> None"
    by code_simp
  from pattern_priority[OF h1 h2 h3] h4 show ?thesis by blast
qed

section \<open>Keyword phase\<close>

lemma keyword_score_spec:
  "keyword_score kws u (split u) score = score + spec_score kws u"
  by (induction kws arbitrary: score) (simp_all add: spec_score_def)

lemma intent_scores_spec: "intent_scores u = spec_scores u"
  by (simp add: intent_scores_def spec_scores_def keyword_score_spec)

lemma max_key_from_first:
  "\<exists>pre p post. kv # kvs = pre @ p # post \<and> max_key_from kv kvs = fst p \<and>
     (\<forall>q \<in> set pre. snd q < snd p) \<and> (\<forall>q \<in> set post. snd q \<le> snd p)"
proof (induction kvs arbitrary: kv)
  case Nil
  have "[kv] = [] @ kv # []" by simp
  then show ?case by fastforce
next
  case (Cons x xs)
  show ?case
  proof (cases "snd kv < snd x")
    case True
    from Cons[of x] obtain pre p post where s: "x # xs = pre @ p # post"
      and m: "max_key_from x xs = fst p" and lt: "\<forall>q \<in> set pre. snd q < snd p"
      and le: "\<forall>q \<in> set post. snd q \<le> snd p" by blast
    have xp: "snd x \<le> snd p"
    proof (cases pre)
      case Nil
      with s show ?thesis by simp
    next
      case (Cons y ys)
      with s lt show ?thesis by auto
    qed
    have "kv # x # xs = (kv # pre) @ p # post" using s by simp
    moreover have "max_key_from kv (x # xs) = fst p" using True m by simp
    moreover have "\<forall>q \<in> set (kv # pre). snd q < snd p" using lt xp True by auto
    ultimately show ?thesis using le by blast
  next
    case False
    from Cons[of kv] obtain pre p post where s: "kv # xs = pre @ p # post"
      and m: "max_key_from kv xs = fst p" and lt: "\<forall>q \<in> set pre. snd q < snd p"
      and le: "\<forall>q \<in> set post. snd q \<le> snd p" by blast
    have mm: "max_key_from kv (x # xs) = fst p" using False m by simp
    show ?thesis
    proof (cases pre)
      case Nil
      with s have p: "p = kv" and post: "post = xs" by simp_all
      have "kv # x # xs = [] @ p # (x # post)" using p post by simp
      moreover have "\<forall>q \<in> set (x # post). snd q \<le> snd p" using le False p by auto
      ultimately show ?thesis using mm by fastforce
    next
      case (Cons y ys)
      with s have y: "y = kv" and xs: "xs = ys @ p # post" by simp_all
      from lt Cons y have "snd kv < snd p" by simp
      with False have "snd x < snd p" by simp
      with lt Cons y have "\<forall>q \<in> set (kv # x # ys). snd q < snd p" by auto
      moreover have "kv # x # xs = (kv # x # ys) @ p # post" using xs by simp
      ultimately show ?thesis using mm le by blast
    qed
  qed
qed

lemma first_max_split:
  assumes "kvs = pre @ p # post" and "\<forall>q \<in> set pre. snd q < snd p"
    and "\<forall>q \<in> set post. snd q \<le> snd p"
  shows "best_score kvs = snd p" and "first_max kvs = fst p"
proof -
  have "Max (set (map snd kvs)) = snd p"
  proof (rule Max_eqI)
    show "finite (set (map snd kvs))" by simp
    show "snd p \<in> set (map snd kvs)" using assms(1) by simp
    fix y assume "y \<in> set (map snd kvs)"
    then obtain q where "q \<in> set kvs" "y = snd q" by auto
    with assms show "y \<le> snd p" by auto
  qed
  then show b: "best_score kvs = snd p" by (simp add: best_score_def)
  have e: "filter (\<lambda>kv. snd kv = snd p) pre = []"
    using assms(2) by (auto simp: filter_empty_conv)
  have "filter (\<lambda>kv. snd kv = snd p) kvs = p # filter (\<lambda>kv. snd kv = snd p) post"
    by (simp add: assms(1) e)
  then show "first_max kvs = fst p" by (simp add: first_max_def b)
qed

lemma max_key_from_first_max:
  "max_key_from kv kvs = first_max (kv # kvs) \<and>
   (distinct (map fst (kv # kvs)) \<longrightarrow>
      map_of (kv # kvs) (max_key_from kv kvs) = Some (best_score (kv # kvs)))"
proof -
  from max_key_from_first[of kv kvs] obtain pre p post where s: "kv # kvs = pre @ p # post"
    and m: "max_key_from kv kvs = fst p" and lt: "\<forall>q \<in> set pre. snd q < snd p"
    and le: "\<forall>q \<in> set post. snd q \<le> snd p" by blast
  from first_max_split[OF s lt le] have b: "best_score (kv # kvs) = snd p"
    and f: "first_max (kv # kvs) = fst p" .
  have "p \<in> set (kv # kvs)" using s by simp
  then have "distinct (map fst (kv # kvs)) \<Longrightarrow> map_of (kv # kvs) (fst p) = Some (snd p)"
    by (metis map_of_eq_Some_iff prod.collapse)
  with m b f show ?thesis by simp
qed

lemma detect_intent_by_keywords_spec:
  "detect_intent_by_keywords u =
     (if 0 < best_score (spec_scores u) then Some (first_max (spec_scores u)) else None)"
proof -
  have d: "distinct (map fst (spec_scores u))"
    by (simp add: spec_scores_def intent_keywords_def)
  obtain kv kvs where c: "spec_scores u = kv # kvs"
    by (cases "spec_scores u") (simp_all add: spec_scores_def intent_keywords_def)
  from d c have d': "distinct (map fst (kv # kvs))" by simp
  from max_key_from_first_max[of kv kvs] d'
  have m1: "max_key_from kv kvs = first_max (kv # kvs)"
    and m2: "map_of (kv # kvs) (first_max (kv # kvs)) = Some (best_score (kv # kvs))"
    by auto
  have "detect_intent_by_keywords u =
     (if 0 < best_score (kv # kvs) then Some (first_max (kv # kvs)) else None)"
    by (simp add: detect_intent_by_keywords_def intent_scores_spec c Let_def m1 m2
        del: map_of.simps)
  then show ?thesis by (simp add: c)
qed

text \<open>
  Claim C7. When no pattern matches the normalized utterance \<open>u\<close>, every intent is scored
  with one point per keyword that is a substring of \<open>u\<close> and half a point more when the
  keyword is a token of \<open>u\<close>. If the greatest score is positive, \<open>parse_intent\<close> returns
  the first-declared intent that achieves it, with confidence 0.7 and detection method
  \<open>keywords\<close>; otherwise it returns \<open>search\<close> with confidence 0.3, detection method
  \<open>default\<close> and the slot \<open>query\<close> holding \<open>u\<close>.
\<close>

theorem keyword_phase:
  assumes "\<forall>(i, p) \<in> set flat_patterns. re_search p (strip (lower utterance)) = None"
  shows "(0 < best_score (spec_scores (strip (lower utterance))) \<longrightarrow>
           (\<exists>c. parse_intent utterance = Inr c \<and>
                c_intent c = first_max (spec_scores (strip (lower utterance))) \<and>
                c_confidence c = 7 / 10 \<and> c_detection_method c = ''keywords'')) \<and>
         (\<not> 0 < best_score (spec_scores (strip (lower utterance))) \<longrightarrow>
           parse_intent utterance =
             Inr \<lparr>c_intent = ''search'', c_confidence = 3 / 10,
                  c_extracted_info = [(''query'', Str (strip (lower utterance)))],
                  c_raw_input = strip (lower utterance), c_detection_method = ''default''\<rparr>)"
proof -
  let ?u = "strip (lower utterance)"
  have "pattern_phase intent_patterns ?u = first_flat flat_patterns ?u"
    by (simp add: pattern_phase_flat flat_patterns_def)
  with first_flat_none[OF assms] have ph: "pattern_phase intent_patterns ?u = None" by simp
  show ?thesis
  proof (cases "0 < best_score (spec_scores ?u)")
    case True
    then have k: "detect_intent_by_keywords ?u = Some (first_max (spec_scores ?u))"
      by (simp add: detect_intent_by_keywords_spec)
    from extract_info_by_keywords_total obtain v
      where "extract_info_by_keywords (first_max (spec_scores ?u)) ?u = Inr v" ..
    with True ph k show ?thesis by (simp add: parse_intent_def Let_def)
  next
    case False
    then have "detect_intent_by_keywords ?u = None"
      by (simp add: detect_intent_by_keywords_spec)
    with False ph show ?thesis by (simp add: parse_intent_def Let_def)
  qed
qed

theorem keyword_phase_witness:
  "first_flat flat_patterns (strip (lower ''Sunny flight'')) = None \<and>
   spec_scores (strip (lower ''Sunny flight'')) =
     [(''calculate'', 0), (''weather'', 3 / 2), (''book_flight'', 3 / 2), (''send_email'', 0),
      (''search'', 0), (''schedule_meeting'', 0)] \<and>
   (\<exists>c. parse_intent ''Sunny flight'' = Inr c \<and> c_intent c = ''weather'' \<and>
        c_confidence c = 7 / 10 \<and> c_detection_method c = ''keywords'') \<and>
   first_flat flat_patterns (strip (lower '' Hello '')) = None \<and>
   parse_intent '' Hello '' =
     Inr \<lparr>c_intent = ''search'', c_confidence = 3 / 10,
          c_extracted_info = [(''query'', Str ''hello'')],
          c_raw_input = ''hello'', c_detection_method = ''default''\<rparr>"
proof -
  have n1: "\<forall>(i, p) \<in> set flat_patterns. re_search p (strip (lower ''Sunny flight'')) = None"
    by code_simp
  have s1: "spec_scores (strip (lower ''Sunny flight'')) =
     [(''calculate'', 0), (''weather'', 3 / 2), (''book_flight'', 3 / 2), (''send_email'', 0),
      (''search'', 0), (''schedule_meeting'', 0)]"
    by code_simp
  have b1: "0 < best_score (spec_scores (strip (lower ''Sunny flight'')))"
    and f1: "first_max (spec_scores (strip (lower ''Sunny flight''))) = ''weather''"
    unfolding s1 by code_simp+
  have n2: "\<forall>(i, p) \<in> set flat_patterns. re_search p (strip (lower '' Hello '')) = None"
    by code_simp
  have b2: "\<not> 0 < best_score (spec_scores (strip (lower '' Hello '')))"
    and u2: "strip (lower '' Hello '') = ''hello''"
    by code_simp+
  from keyword_phase[OF n1] b1 f1 keyword_phase[OF n2] b2 u2 s1
    first_flat_none[OF n1] first_flat_none[OF n2]
  show ?thesis by simp
qed

section \<open>Validation in the arithmetic evaluator\<close>

lemma convert_all_invalid:
  "first_invalid nums = Some bad \<Longrightarrow>
   convert_all nums = Inl (''Error: '' @ quoted bad @ '' is not a valid number'')"
proof (induction nums)
  case Nil
  then show ?case by (simp add: first_invalid_def)
next
  case (Cons s nums)
  show ?case
  proof (cases "float_of_str s")
    case (Inl e)
    with Cons.prems show ?thesis by (simp add: first_invalid_def)
  next
    case (Inr x)
    with Cons.prems have "first_invalid nums = Some bad" by (simp add: first_invalid_def)
    from Cons.IH[OF this] Inr show ?thesis by simp
  qed
qed

lemma convert_all_valid:
  "first_invalid nums = None \<Longrightarrow>
   \<exists>fs. convert_all nums = Inr fs \<and> length fs = length nums"
proof (induction nums)
  case Nil
  show ?case by simp
next
  case (Cons s nums)
  show ?case
  proof (cases "float_of_str s")
    case (Inl e)
    with Cons.prems show ?thesis by (simp add: first_invalid_def)
  next
    case (Inr x)
    with Cons.prems have "first_invalid nums = None" by (simp add: first_invalid_def)
    from Cons.IH[OF this] Inr show ?thesis by auto
  qed
qed

lemma convert_all_length: "convert_all nums = Inr fs \<Longrightarrow> length fs = length nums"
  by (induction nums arbitrary: fs) (auto split: sum.splits)

lemma call_calculator_error:
  "calculate_result pw data = Inr (''Error:'' @ m) \<Longrightarrow>
   call_calculator_api pw data = error_response data (''Error:'' @ m)"
  by (simp add: call_calculator_api_def error_response_def)

lemma calculate_request:
  "calculate_result pw (request op nums) =
     (if nums = [] then Inr ''Error: No numbers provided for calculation''
      else if op = ''sqrt'' \<and> length nums < 1
        then Inr ''Error: Square root operation requires at least one number''
      else if op \<noteq> ''sqrt'' \<and> length nums < 2
        then Inr ''Error: Need at least two numbers for calculation''
      else if 10 < length nums then Inr ''Error: Too many numbers provided (maximum 10)''
      else Inr (try_block pw (Str op) nums))"
  by (simp add: calculate_result_def request_def Let_def)

text \<open>
  Claim C3. For every operation and every list of strings the checks fire in this order,
  each giving an error of kind \<open>calculation_error\<close>: the empty list; fewer than two
  strings for an operation other than \<open>sqrt\<close>; more than ten strings, before any string
  is converted and before the arity of the operation is looked at; the first string that
  \<open>float\<close> rejects; the exact arity of \<open>power\<close> and of \<open>sqrt\<close>. A list of eleven
  strings gives the error "Too many numbers" for every operation.
\<close>

theorem validation_order:
  "(nums = [] \<longrightarrow>
      call_calculator_api pw (request op nums) =
        error_response (request op nums) ''Error: No numbers provided for calculation'') \<and>
   (nums \<noteq> [] \<and> op \<noteq> ''sqrt'' \<and> length nums < 2 \<longrightarrow>
      call_calculator_api pw (request op nums) =
        error_response (request op nums) ''Error: Need at least two numbers for calculation'') \<and>
   (10 < length nums \<longrightarrow>
      call_calculator_api pw (request op nums) =
        error_response (request op nums) ''Error: Too many numbers provided (maximum 10)'') \<and>
   (length nums = 11 \<longrightarrow>
      call_calculator_api pw (request op nums) =
        error_response (request op nums) ''Error: Too many numbers provided (maximum 10)'') \<and>
   (nums \<noteq> [] \<and> (op = ''sqrt'' \<or> 2 \<le> length nums) \<and> length nums \<le> 10 \<and>
    first_invalid nums = Some bad \<longrightarrow>
      call_calculator_api pw (request op nums) =
        error_response (request op nums)
          (''Error: '' @ quoted bad @ '' is not a valid number'')) \<and>
   (2 \<le> length nums \<and> length nums \<le> 10 \<and> first_invalid nums = None \<and>
    op = ''power'' \<and> length nums \<noteq> 2 \<longrightarrow>
      call_calculator_api pw (request op nums) =
        error_response (request op nums)
          ''Error: Power operation requires exactly two numbers'') \<and>
   (nums \<noteq> [] \<and> length nums \<le> 10 \<and> first_invalid nums = None \<and>
    op = ''sqrt'' \<and> length nums \<noteq> 1 \<longrightarrow>
      call_calculator_api pw (request op nums) =
        error_response (request op nums)
          ''Error: Square root operation requires exactly one number'')"
proof -
  let ?r = "call_calculator_api pw (request op nums)"
  let ?e = "error_response (request op nums)"
  have 1: "nums = [] \<Longrightarrow> ?r = ?e ''Error: No numbers provided for calculation''"
    using call_calculator_error[of pw "request op nums" "'' No numbers provided for calculation''"]
    by (simp add: calculate_request)
  have 2: "nums \<noteq> [] \<Longrightarrow> op \<noteq> ''sqrt'' \<Longrightarrow> length nums < 2 \<Longrightarrow>
           ?r = ?e ''Error: Need at least two numbers for calculation''"
    using call_calculator_error[of pw "request op nums"
        "'' Need at least two numbers for calculation''"]
    by (simp add: calculate_request)
  have 3: "10 < length nums \<Longrightarrow> ?r = ?e ''Error: Too many numbers provided (maximum 10)''"
  proof -
    assume a: "10 < length nums"
    then have "nums \<noteq> []" "\<not> length nums < 2" "\<not> length nums < 1" by auto
    then have "calculate_result pw (request op nums) =
          Inr (''Error:'' @ '' Too many numbers provided (maximum 10)'')"
      using a by (simp add: calculate_request)
    from call_calculator_error[OF this] show ?thesis by simp
  qed
  have 4: "nums \<noteq> [] \<Longrightarrow> op = ''sqrt'' \<or> 2 \<le> length nums \<Longrightarrow> length nums \<le> 10 \<Longrightarrow>
           first_invalid nums = Some bad \<Longrightarrow>
           ?r = ?e (''Error: '' @ quoted bad @ '' is not a valid number'')"
  proof -
    assume a: "nums \<noteq> []" "op = ''sqrt'' \<or> 2 \<le> length nums" "length nums \<le> 10"
      "first_invalid nums = Some bad"
    from a(1) have "\<not> length nums < 1" by (cases nums) simp_all
    with a have "calculate_result pw (request op nums) =
          Inr (''Error:'' @ ('' '' @ quoted bad @ '' is not a valid number''))"
      by (auto simp: calculate_request try_block_def convert_all_invalid)
    from call_calculator_error[OF this] show ?thesis by simp
  qed
  have 5: "2 \<le> length nums \<Longrightarrow> length nums \<le> 10 \<Longrightarrow> first_invalid nums = None \<Longrightarrow>
           op = ''power'' \<Longrightarrow> length nums \<noteq> 2 \<Longrightarrow>
           ?r = ?e ''Error: Power operation requires exactly two numbers''"
  proof -
    assume a: "2 \<le> length nums" "length nums \<le> 10" "first_invalid nums = None"
      "op = ''power''" "length nums \<noteq> 2"
    from convert_all_valid[OF a(3)] obtain fs
      where fs: "convert_all nums = Inr fs" "length fs = length nums" by blast
    have "calculate_result pw (request op nums) =
          Inr (''Error:'' @ '' Power operation requires exactly two numbers'')"
      using a fs by (auto simp: calculate_request try_block_def compute_def)
    from call_calculator_error[OF this] show ?thesis by simp
  qed
  have 6: "nums \<noteq> [] \<Longrightarrow> length nums \<le> 10 \<Longrightarrow> first_invalid nums = None \<Longrightarrow>
           op = ''sqrt'' \<Longrightarrow> length nums \<noteq> 1 \<Longrightarrow>
           ?r = ?e ''Error: Square root operation requires exactly one number''"
  proof -
    assume a: "nums \<noteq> []" "length nums \<le> 10" "first_invalid nums = None"
      "op = ''sqrt''" "length nums \<noteq> 1"
    from convert_all_valid[OF a(3)] obtain fs
      where fs: "convert_all nums = Inr fs" "length fs = length nums" by blast
    have "calculate_result pw (request op nums) =
          Inr (''Error:'' @ '' Square root operation requires exactly one number'')"
      using a fs by (auto simp: calculate_request try_block_def compute_def)
    from call_calculator_error[OF this] show ?thesis by simp
  qed
  from 1 2 3 4 5 6 show ?thesis by simp
qed

section \<open>Division by zero\<close>

lemma float_div_total: "\<not> is_zero y \<Longrightarrow> \<exists>q. float_div x y = Inr q"
  by (simp add: float_div_def Let_def)

lemma divide_loop_total:
  "\<not> list_ex is_zero ys \<Longrightarrow> \<exists>q. divide_loop x ys = Inr q"
proof (induction ys arbitrary: x)
  case Nil
  show ?case by simp
next
  case (Cons y ys)
  then have "\<not> is_zero y" "\<not> list_ex is_zero ys" by simp_all
  from float_div_total[OF this(1)] obtain q where "float_div x y = Inr q" ..
  with Cons.IH[OF \<open>\<not> list_ex is_zero ys\<close>, of q] show ?case by simp
qed

lemma format_result_has_equals: "format_result e r = Inr s \<Longrightarrow> CHR ''='' \<in> set s"
  by (auto simp: format_result_def split: pynum.splits sum.splits if_splits)

lemma handled_not_divide_message:
  "(if is_overflow_error e then ''Error: Calculation result is too large''
    else ''Error: Calculation failed - '' @ exc_str e) \<noteq> ''Error: Cannot divide by zero''"
  by simp

text \<open>
  Claim C4. For \<open>divide\<close> on a list of two to ten strings that \<open>float\<close> accepts: if an
  operand after the first is zero, the endpoint returns the error "Cannot divide by zero"
  of kind \<open>calculation_error\<close>, decided before the division loop runs; if none is zero,
  the division loop raises nothing and the result is not that error.
\<close>

theorem divide_by_zero:
  assumes "2 \<le> length nums" and "length nums \<le> 10" and "convert_all nums = Inr fs"
  shows "(list_ex is_zero (tl fs) \<longrightarrow>
            call_calculator_api pw (request ''divide'' nums) =
              error_response (request ''divide'' nums) ''Error: Cannot divide by zero'') \<and>
         (\<not> list_ex is_zero (tl fs) \<longrightarrow>
            (\<exists>q. divide_loop (hd fs) (tl fs) = Inr q) \<and>
            x_result (call_calculator_api pw (request ''divide'' nums)) \<noteq>
              Some ''Error: Cannot divide by zero'')"
proof -
  from assms(1) have ne: "nums \<noteq> []" "\<not> length nums < 2" by auto
  have c: "calculate_result pw (request ''divide'' nums) =
           Inr (case compute pw (Str ''divide'') fs of
                  Inr msg \<Rightarrow> msg
                | Inl e \<Rightarrow> if is_overflow_error e
                           then ''Error: Calculation result is too large''
                           else ''Error: Calculation failed - '' @ exc_str e)"
    using ne assms(2,3) by (simp add: calculate_request try_block_def)
  show ?thesis
  proof (cases "list_ex is_zero (tl fs)")
    case True
    then have "calculate_result pw (request ''divide'' nums) =
               Inr (''Error:'' @ '' Cannot divide by zero'')"
      by (simp add: c compute_def)
    from call_calculator_error[OF this] True show ?thesis by simp
  next
    case False
    from divide_loop_total[OF False] obtain q where q: "divide_loop (hd fs) (tl fs) = Inr q" ..
    let ?f = "format_result (joined division_sign fs) (FloatNum q)"
    have k: "compute pw (Str ''divide'') fs = ?f"
      using False q by (simp add: compute_def)
    have "(case ?f of
             Inr msg \<Rightarrow> msg
           | Inl e \<Rightarrow> if is_overflow_error e
                      then ''Error: Calculation result is too large''
                      else ''Error: Calculation failed - '' @ exc_str e)
          \<noteq> ''Error: Cannot divide by zero''"
    proof (cases ?f)
      case (Inl e)
      then show ?thesis using handled_not_divide_message[of e] by simp
    next
      case (Inr msg)
      from format_result_has_equals[OF Inr] have "msg \<noteq> ''Error: Cannot divide by zero''"
        by auto
      with Inr show ?thesis by simp
    qed
    then have "x_result (call_calculator_api pw (request ''divide'' nums)) \<noteq>
               Some ''Error: Cannot divide by zero''"
      by (simp add: call_calculator_api_def c k api_response_def)
    with False q show ?thesis by blast
  qed
qed

section \<open>Rounding to binary64\<close>

lemma pow2_powi: "pow2 e = power_int 2 e"
  by (simp add: pow2_def power_int_def power_one_over inverse_eq_divide)

lemma pow10_powi: "pow10 e = power_int 10 e"
  by (simp add: pow10_def power_int_def power_one_over inverse_eq_divide)

lemma floorlog_pos: "0 < n \<Longrightarrow> 1 < b \<Longrightarrow> 0 < floorlog b n"
  by (simp add: floorlog_def)

lemma nat_floor_bounds:
  fixes q :: rat
  assumes "1 \<le> q" "1 < b"
  shows "of_nat b ^ (floorlog b (nat \<lfloor>q\<rfloor>) - 1) \<le> q"
    and "q < of_nat b ^ floorlog b (nat \<lfloor>q\<rfloor>)"
proof -
  let ?n = "nat \<lfloor>q\<rfloor>"
  let ?f = "floorlog b ?n"
  from assms(1) have n: "0 < ?n" by simp
  from assms(1) have fl: "0 \<le> \<lfloor>q\<rfloor>" by simp
  from floorlog_bounds[OF n assms(2)] have lo: "b ^ (?f - 1) \<le> ?n" and hi: "?n < b ^ ?f"
    by simp_all
  have nq: "(of_nat ?n :: rat) = of_int \<lfloor>q\<rfloor>" using fl by simp
  have "(of_nat (b ^ (?f - 1)) :: rat) \<le> of_nat ?n" using lo by (rule of_nat_mono)
  also have "\<dots> \<le> q" unfolding nq by simp
  finally show "of_nat b ^ (?f - 1) \<le> q" by simp
  from hi have "Suc ?n \<le> b ^ ?f" by simp
  then have "(of_nat (Suc ?n) :: rat) \<le> of_nat (b ^ ?f)" by (rule of_nat_mono)
  moreover have "q < of_nat (Suc ?n)" using nq by simp linarith
  ultimately show "q < of_nat b ^ ?f" by simp
qed

lemma ilog_bounds:
  fixes q :: rat
  assumes "0 < q" "1 < b"
  shows "power_int (of_nat b) (ilog b q) \<le> q \<and> q < power_int (of_nat b) (ilog b q + 1)"
proof (cases "1 \<le> q")
  case True
  let ?f = "floorlog b (nat \<lfloor>q\<rfloor>)"
  from True have "0 < nat \<lfloor>q\<rfloor>" by simp
  from floorlog_pos[OF this assms(2)] have f: "0 < ?f" .
  then have e: "ilog b q = int (?f - 1)" and e1: "ilog b q + 1 = int ?f"
    using True by (simp_all add: ilog_def)
  have "power_int (of_nat b :: rat) (ilog b q) = of_nat b ^ (?f - 1)"
    by (simp only: e power_int_of_nat)
  moreover have "power_int (of_nat b :: rat) (ilog b q + 1) = of_nat b ^ ?f"
    by (simp only: e1 power_int_of_nat)
  ultimately show ?thesis using nat_floor_bounds[OF True assms(2)] by simp
next
  case False
  let ?r = "1 / q"
  let ?f = "floorlog b (nat \<lfloor>?r\<rfloor>)"
  let ?j = "?f - 1"
  let ?B = "of_nat b :: rat"
  from False assms(1) have r1: "1 \<le> ?r" by simp
  then have "0 < nat \<lfloor>?r\<rfloor>" by simp
  from floorlog_pos[OF this assms(2)] have f: "0 < ?f" .
  from nat_floor_bounds[OF r1 assms(2)] have lo: "?B ^ ?j \<le> ?r" and hi: "?r < ?B ^ ?f" .
  have B: "1 < ?B" using assms(2) by simp
  then have Bp: "0 < ?B" by simp
  have pj: "0 < ?B ^ ?j" and pf: "0 < ?B ^ ?f" using Bp by simp_all
  have j: "int ?f - 1 = int ?j" using f by simp
  have fj: "?f = Suc ?j" using f by simp
  show ?thesis
  proof (cases "?B ^ ?j = ?r")
    case True
    then have e: "ilog b q = - int ?j" using False by (simp add: ilog_def Let_def j)
    have "1 / ?B ^ ?j = 1 / (1 / q)" by (simp only: True)
    then have q: "1 / ?B ^ ?j = q" by simp
    have "power_int ?B (- int ?j) = 1 / ?B ^ ?j"
      by (simp only: power_int_minus_divide power_int_of_nat)
    then have 1: "power_int ?B (- int ?j) = q" by (simp only: q)
    have "power_int ?B (- int ?j) < power_int ?B (- int ?j + 1)"
      using B by (intro power_int_strict_increasing) simp_all
    with 1 show ?thesis unfolding e by simp
  next
    case ne: False
    then have e: "ilog b q = - int ?j - 1" using False by (simp add: ilog_def Let_def j)
    have e0: "ilog b q = - int ?f" using e f by simp
    have e1: "ilog b q + 1 = - int ?j" using e by simp
    have p0: "power_int ?B (ilog b q) = 1 / ?B ^ ?f"
      by (simp only: e0 power_int_minus_divide power_int_of_nat)
    have p1: "power_int ?B (ilog b q + 1) = 1 / ?B ^ ?j"
      by (simp only: e1 power_int_minus_divide power_int_of_nat)
    from lo ne have lt: "?B ^ ?j < ?r" by simp
    have "1 / ?B ^ ?f < q" using hi pf assms(1) by (simp add: field_simps)
    then have "1 / ?B ^ ?f \<le> q" by simp
    moreover have "q < 1 / ?B ^ ?j" using lt pj assms(1) by (simp add: field_simps)
    ultimately show ?thesis unfolding p0 p1 by (rule conjI)
  qed
qed

lemma ilog_unique:
  fixes q :: rat
  assumes "1 < b" and lo: "power_int (of_nat b) e \<le> q" and hi: "q < power_int (of_nat b) (e + 1)"
  shows "ilog b q = e"
proof -
  let ?B = "of_nat b :: rat"
  have B: "1 < ?B" using assms(1) by simp
  have "0 < power_int ?B e" using B by (intro zero_less_power_int) simp
  with lo have q: "0 < q" by simp
  from ilog_bounds[OF q assms(1)]
  have l: "power_int ?B (ilog b q) \<le> q" and h: "q < power_int ?B (ilog b q + 1)" by simp_all
  have "\<not> ilog b q < e"
  proof
    assume "ilog b q < e"
    then have "ilog b q + 1 \<le> e" by simp
    then have "power_int ?B (ilog b q + 1) \<le> power_int ?B e"
      using B by (intro power_int_increasing) simp_all
    with h lo show False by simp
  qed
  moreover have "\<not> e < ilog b q"
  proof
    assume "e < ilog b q"
    then have "e + 1 \<le> ilog b q" by simp
    then have "power_int ?B (e + 1) \<le> power_int ?B (ilog b q)"
      using B by (intro power_int_increasing) simp_all
    with l hi show False by simp
  qed
  ultimately show ?thesis by simp
qed

lemma round_half_even_int: "round_half_even (of_int n) = n"
  by (simp add: round_half_even_def)


lemma powi2_pos: "0 < power_int (2::rat) e"
  by (intro zero_less_power_int) simp

lemma powi2_less_imp: "power_int (2::rat) a < power_int 2 b \<Longrightarrow> a < b"
proof (rule ccontr)
  assume l: "power_int (2::rat) a < power_int 2 b" and "\<not> a < b"
  then have "b \<le> a" by simp
  then have "power_int (2::rat) b \<le> power_int 2 a" by (intro power_int_increasing) simp_all
  with l show False by simp
qed

lemma to_double_unfold:
  assumes "q \<noteq> 0" and "t = max (ilog 2 \<bar>q\<bar>) (- 1022) - 52"
    and "k = round_half_even (\<bar>q\<bar> / pow2 t)" and "v = of_int k * pow2 t"
  shows "to_double q =
           (if pow2 1024 \<le> v then (if q < 0 then NInf else PInf)
            else if k = 0 then (if q < 0 then NegZero else Fin 0)
            else Fin (if q < 0 then - v else v))"
  using assms by (simp add: to_double_def Let_def)

lemma to_double_exact:
  assumes q: "q = of_int k * pow2 j" and k0: "k \<noteq> 0" and k: "\<bar>k\<bar> < 2 ^ 53"
    and j: "- 1074 \<le> j" and fin: "\<bar>q\<bar> < pow2 1024"
  shows "to_double q = Fin q"
proof -
  define a where "a = \<bar>q\<bar>"
  define e where "e = ilog 2 a"
  define t where "t = max e (- 1022) - 52"
  have a: "a = of_int \<bar>k\<bar> * power_int 2 j"
    unfolding a_def q pow2_powi using powi2_pos[of j] by (simp add: abs_mult)
  have apos: "0 < a" unfolding a using k0 powi2_pos[of j] by simp
  then have q0: "q \<noteq> 0" by (auto simp: a_def)
  from ilog_bounds[OF apos, of 2] have lo: "power_int 2 e \<le> a" by (simp add: e_def)
  have "(of_int \<bar>k\<bar> :: rat) < of_int (2 ^ 53)" using k by (simp only: of_int_less_iff)
  then have "(of_int \<bar>k\<bar> :: rat) < power_int 2 53" by simp
  then have "a < power_int 2 53 * power_int 2 j"
    unfolding a using powi2_pos[of j] by (simp add: mult_strict_right_mono)
  also have "\<dots> = power_int 2 (53 + j)" by (simp add: power_int_add)
  finally have "power_int 2 e < power_int (2::rat) (53 + j)" using lo by simp
  from powi2_less_imp[OF this] have "e - 52 \<le> j" by simp
  with j have tj: "t \<le> j" by (simp add: t_def)
  define d where "d = nat (j - t)"
  have jd: "j = t + int d" using tj by (simp add: d_def)
  have pj: "power_int (2::rat) j = power_int 2 t * 2 ^ d"
    by (subst jd) (simp add: power_int_add)
  define N where "N = \<bar>k\<bar> * 2 ^ d"
  have m: "a / pow2 t = of_int N"
    unfolding a pow2_powi pj N_def using powi2_pos[of t] by simp
  have v: "of_int N * pow2 t = a"
    unfolding a pow2_powi pj N_def by simp
  have N0: "N \<noteq> 0" using k0 by (simp add: N_def)
  have r: "N = round_half_even (\<bar>q\<bar> / pow2 t)"
    using m by (simp add: a_def round_half_even_int)
  have t': "t = max (ilog 2 \<bar>q\<bar>) (- 1022) - 52" by (simp add: t_def e_def a_def)
  have "to_double q = Fin (if q < 0 then - a else a)"
    using to_double_unfold[OF q0 t' r v[symmetric]] fin N0 by (simp add: a_def)
  also have "(if q < 0 then - a else a) = q" by (simp add: a_def)
  finally show ?thesis .
qed

lemma to_double_int:
  assumes "\<bar>n\<bar> < 2 ^ 53"
  shows "to_double (of_int n) = Fin (of_int n)"
proof (cases "n = 0")
  case True
  then show ?thesis by (simp add: to_double_def)
next
  case False
  have "\<bar>n\<bar> < 2 ^ 1024" using assms by (rule less_trans) simp
  then have "(of_int \<bar>n\<bar> :: rat) < of_int (2 ^ 1024)" by (simp only: of_int_less_iff)
  then have "\<bar>of_int n :: rat\<bar> < pow2 1024" by (simp add: pow2_def)
  with to_double_exact[of "of_int n" n 0] False assms show ?thesis by (simp add: pow2_def)
qed


section \<open>Evaluating the evaluator\<close>

lemma float_of_str_int:
  assumes "read_sign (c_strip s) = (False, b)"
    and "lower b \<noteq> ''inf''" "lower b \<noteq> ''infinity''" "lower b \<noteq> ''nan''"
    and "read_number b = Some (of_int n)" and "0 < n" and "n < 2 ^ 53"
  shows "float_of_str s = Inr (Fin (of_int n))"
proof -
  from assms(6,7) have "\<bar>n\<bar> < 2 ^ 53" by simp
  from to_double_int[OF this] assms show ?thesis by (simp add: float_of_str_def)
qed

lemma float_of_str_15: "float_of_str ''15'' = Inr (Fin 15)"
proof -
  have "read_sign (c_strip ''15'') = (False, ''15'')" "lower ''15'' \<noteq> ''inf''"
    "lower ''15'' \<noteq> ''infinity''" "lower ''15'' \<noteq> ''nan''" "read_number ''15'' = Some (of_int 15)"
    by code_simp+
  from float_of_str_int[OF this] show ?thesis by simp
qed

lemma float_of_str_27: "float_of_str ''27'' = Inr (Fin 27)"
proof -
  have "read_sign (c_strip ''27'') = (False, ''27'')" "lower ''27'' \<noteq> ''inf''"
    "lower ''27'' \<noteq> ''infinity''" "lower ''27'' \<noteq> ''nan''" "read_number ''27'' = Some (of_int 27)"
    by code_simp+
  from float_of_str_int[OF this] show ?thesis by simp
qed

lemma float_of_str_10: "float_of_str ''10'' = Inr (Fin 10)"
proof -
  have "read_sign (c_strip ''10'') = (False, ''10'')" "lower ''10'' \<noteq> ''inf''"
    "lower ''10'' \<noteq> ''infinity''" "lower ''10'' \<noteq> ''nan''" "read_number ''10'' = Some (of_int 10)"
    by code_simp+
  from float_of_str_int[OF this] show ?thesis by simp
qed

lemma float_of_str_0: "float_of_str ''0'' = Inr (Fin 0)"
proof -
  have "read_sign (c_strip ''0'') = (False, ''0'')" "lower ''0'' \<noteq> ''inf''"
    "lower ''0'' \<noteq> ''infinity''" "lower ''0'' \<noteq> ''nan''" "read_number ''0'' = Some 0"
    by code_simp+
  then show ?thesis by (simp add: float_of_str_def signed_zero_def)
qed

lemma float_of_str_x: "float_of_str ''x'' = Inl (float_error ''x'')"
proof -
  have "read_sign (c_strip ''x'') = (False, ''x'')" "lower ''x'' \<noteq> ''inf''"
    "lower ''x'' \<noteq> ''infinity''" "lower ''x'' \<noteq> ''nan''" "read_number ''x'' = None"
    by code_simp+
  then show ?thesis by (simp add: float_of_str_def)
qed

lemma float_of_str_fs1: "float_of_str [CHR 0x1C, CHR ''1''] = Inl (float_error [CHR 0x1C, CHR ''1''])"
proof -
  have "read_sign (c_strip [CHR 0x1C, CHR ''1'']) = (False, [CHR 0x1C, CHR ''1''])"
    "lower [CHR 0x1C, CHR ''1''] \<noteq> ''inf''" "lower [CHR 0x1C, CHR ''1''] \<noteq> ''infinity''"
    "lower [CHR 0x1C, CHR ''1''] \<noteq> ''nan''" "read_number [CHR 0x1C, CHR ''1''] = None"
    by code_simp+
  then show ?thesis by (simp add: float_of_str_def)
qed

theorem validation_order_witness:
  "call_calculator_api (\<lambda>x y. (NaN, NoError)) (request ''power'' (replicate 11 ''x'')) =
     error_response (request ''power'' (replicate 11 ''x''))
       ''Error: Too many numbers provided (maximum 10)'' \<and>
   first_invalid [''x'', ''10'', ''0''] = Some ''x'' \<and>
   call_calculator_api (\<lambda>x y. (NaN, NoError)) (request ''power'' [''x'', ''10'', ''0'']) =
     error_response (request ''power'' [''x'', ''10'', ''0''])
       (''Error: '' @ quoted ''x'' @ '' is not a valid number'') \<and>
   first_invalid [[CHR 0x1C, CHR ''1''], ''x''] = Some [CHR 0x1C, CHR ''1''] \<and>
   call_calculator_api (\<lambda>x y. (NaN, NoError)) (request ''power'' [[CHR 0x1C, CHR ''1''], ''x'']) =
     error_response (request ''power'' [[CHR 0x1C, CHR ''1''], ''x''])
       (''Error: '' @ quoted [CHR 0x1C, CHR ''1''] @ '' is not a valid number'')"
proof -
  have f: "first_invalid [''x'', ''10'', ''0''] = Some ''x''"
    by (simp add: first_invalid_def float_of_str_x)
  have g: "first_invalid [[CHR 0x1C, CHR ''1''], ''x''] = Some [CHR 0x1C, CHR ''1'']"
    by (simp add: first_invalid_def float_of_str_fs1)
  from validation_order[where nums = "replicate 11 ''x''" and op = "''power''"
      and pw = "\<lambda>x y. (NaN, NoError)"]
    validation_order[where nums = "[''x'', ''10'', ''0'']" and op = "''power''"
      and pw = "\<lambda>x y. (NaN, NoError)" and bad = "''x''"] f
    validation_order[where nums = "[[CHR 0x1C, CHR ''1''], ''x'']" and op = "''power''"
      and pw = "\<lambda>x y. (NaN, NoError)" and bad = "[CHR 0x1C, CHR ''1'']"] g
  show ?thesis by simp
qed

lemma convert_10_0: "convert_all [''10'', ''0''] = Inr [Fin 10, Fin 0]"
  by (simp add: float_of_str_10 float_of_str_0)

lemma convert_10_10: "convert_all [''10'', ''10''] = Inr [Fin 10, Fin 10]"
  by (simp add: float_of_str_10)

theorem divide_by_zero_witness:
  "convert_all [''10'', ''0''] = Inr [Fin 10, Fin 0] \<and>
   call_calculator_api (\<lambda>x y. (NaN, NoError)) (request ''divide'' [''10'', ''0'']) =
     error_response (request ''divide'' [''10'', ''0'']) ''Error: Cannot divide by zero'' \<and>
   x_status (error_response (request ''divide'' [''10'', ''0''])
               ''Error: Cannot divide by zero'') = Some ''error'' \<and>
   x_error_type (error_response (request ''divide'' [''10'', ''0''])
               ''Error: Cannot divide by zero'') = Some ''calculation_error'' \<and>
   str_in ''divide by zero'' ''Error: Cannot divide by zero'' \<and>
   x_result (call_calculator_api (\<lambda>x y. (NaN, NoError)) (request ''divide'' [''10'', ''10''])) \<noteq>
     Some ''Error: Cannot divide by zero''"
proof -
  have z: "list_ex is_zero (tl [Fin 10, Fin 0])" "\<not> list_ex is_zero (tl [Fin 10, Fin 10])"
    by (simp_all add: is_zero_def finite_value_def)
  have s: "str_in ''divide by zero'' ''Error: Cannot divide by zero''" by code_simp
  from divide_by_zero[OF _ _ convert_10_0, of "\<lambda>x y. (NaN, NoError)"]
    divide_by_zero[OF _ _ convert_10_10, of "\<lambda>x y. (NaN, NoError)"] z s convert_10_0
  show ?thesis by (simp add: error_response_def api_response_def)
qed

section \<open>Overflow in the arithmetic evaluator\<close>















section \<open>The end-to-end scenario\<close>

lemma pow10_vals: "pow10 0 = 1" "pow10 1 = 10" "pow10 (- 1) = 1 / 10"
  by (simp_all add: pow10_def)

lemma ilog10_two_digits: "10 \<le> q \<Longrightarrow> q < 100 \<Longrightarrow> ilog 10 q = 1"
  by (rule ilog_unique) simp_all

lemma to_double_small:
  "to_double 10 = Fin 10" "to_double 20 = Fin 20" "to_double 30 = Fin 30"
  "to_double 15 = Fin 15" "to_double 16 = Fin 16" "to_double 27 = Fin 27"
  "to_double 28 = Fin 28" "to_double 42 = Fin 42"
  using to_double_int[of 10] to_double_int[of 20] to_double_int[of 30] to_double_int[of 15]
    to_double_int[of 16] to_double_int[of 27] to_double_int[of 28] to_double_int[of 42]
  by simp_all

lemma floor_vals: "\<lfloor>3 / 2 :: rat\<rfloor> = 1" "\<lfloor>27 / 10 :: rat\<rfloor> = 2"
  by (rule floor_unique; simp)+

lemma shortest_next:
  assumes "to_double (of_int \<lfloor>q * pow10 (- (e + 1 - int n))\<rfloor> * pow10 (e + 1 - int n)) \<noteq> Fin q"
    and "to_double (of_int (\<lfloor>q * pow10 (- (e + 1 - int n))\<rfloor> + 1) * pow10 (e + 1 - int n)) \<noteq> Fin q"
  shows "shortest n (Suc fuel) q e = shortest (Suc n) fuel q e"
  using assms by (simp add: Let_def)

lemma shortest_low:
  assumes "to_double (of_int \<lfloor>q * pow10 (- (e + 1 - int n))\<rfloor> * pow10 (e + 1 - int n)) = Fin q"
    and "to_double (of_int (\<lfloor>q * pow10 (- (e + 1 - int n))\<rfloor> + 1) * pow10 (e + 1 - int n)) \<noteq> Fin q"
  shows "shortest n (Suc fuel) q e = (nat \<lfloor>q * pow10 (- (e + 1 - int n))\<rfloor>, e + 1 - int n)"
  using assms by (simp add: Let_def)

lemma shortest_15: "shortest 1 16 15 1 = (15, 0)"
proof -
  have "shortest (Suc 0) (Suc 15) 15 1 = shortest (Suc (Suc 0)) 15 15 1"
    by (rule shortest_next) (simp_all add: pow10_vals floor_vals to_double_small)
  moreover have "shortest (Suc (Suc 0)) (Suc 14) 15 1 =
      (nat \<lfloor>15 * pow10 (- (1 + 1 - int (Suc (Suc 0))))\<rfloor>, 1 + 1 - int (Suc (Suc 0)))"
    by (rule shortest_low) (simp_all add: pow10_vals to_double_small)
  ultimately show ?thesis by (simp add: pow10_vals)
qed

lemma shortest_27: "shortest 1 16 27 1 = (27, 0)"
proof -
  have "shortest (Suc 0) (Suc 15) 27 1 = shortest (Suc (Suc 0)) 15 27 1"
    by (rule shortest_next) (simp_all add: pow10_vals floor_vals to_double_small)
  moreover have "shortest (Suc (Suc 0)) (Suc 14) 27 1 =
      (nat \<lfloor>27 * pow10 (- (1 + 1 - int (Suc (Suc 0))))\<rfloor>, 1 + 1 - int (Suc (Suc 0)))"
    by (rule shortest_low) (simp_all add: pow10_vals to_double_small)
  ultimately show ?thesis by (simp add: pow10_vals)
qed

lemma float_repr_15: "float_repr (Fin 15) = ''15.0''"
proof -
  have i: "ilog 10 15 = 1" by (rule ilog10_two_digits) simp_all
  have "nat_str 15 = ''15''" "strip_zeros ''15'' = ''15''" "layout ''15'' 2 = ''15.0''"
    by code_simp+
  then have "positive_repr 15 = ''15.0''"
    unfolding positive_repr_def i shortest_15 by (simp del: nat_str.simps)
  then show ?thesis by (simp add: float_repr_def)
qed

lemma float_repr_27: "float_repr (Fin 27) = ''27.0''"
proof -
  have i: "ilog 10 27 = 1" by (rule ilog10_two_digits) simp_all
  have "nat_str 27 = ''27''" "strip_zeros ''27'' = ''27''" "layout ''27'' 2 = ''27.0''"
    by code_simp+
  then have "positive_repr 27 = ''27.0''"
    unfolding positive_repr_def i shortest_27 by (simp del: nat_str.simps)
  then show ?thesis by (simp add: float_repr_def)
qed

lemma int_str_42: "int_str 42 = ''42''"
  by code_simp

lemma sum_15_27: "float_sum [Fin 15, Fin 27] = Fin 42"
  by (simp add: float_sum_def float_add_def finite_value_def to_double_small)

lemma calculate_15_27:
  "calculate_result pw (request ''add'' [''15'', ''27'']) = Inr ''15.0 + 27.0 = 42''"
proof -
  have c: "convert_all [''15'', ''27''] = Inr [Fin 15, Fin 27]"
    by (simp add: float_of_str_15 float_of_str_27)
  have f: "format_result ''15.0 + 27.0'' (FloatNum (Fin 42)) = Inr ''15.0 + 27.0 = 42''"
    by (simp add: format_result_def float_int_def trunc_def float_eq_int_def finite_value_def
        int_str_42)
  have j: "joined ''+'' [Fin 15, Fin 27] = ''15.0 + 27.0''"
    by (simp add: joined_def float_repr_15 float_repr_27)
  have "compute pw (Str ''add'') [Fin 15, Fin 27] = Inr ''15.0 + 27.0 = 42''"
    unfolding compute_def sum_15_27 j f by simp
  then have "try_block pw (Str ''add'') [''15'', ''27''] = ''15.0 + 27.0 = 42''"
    unfolding try_block_def c by simp
  then show ?thesis by (simp add: calculate_request)
qed

text \<open>
  Claim C1. For the utterance "calculate 15 plus 27" the pipeline returns, whatever the
  \<open>pow\<close> of the C library: the intent \<open>calculate\<close> found by a pattern with confidence
  0.9, nothing missing, the action \<open>call_api\<close>, and the result of the calculator with
  status \<open>success\<close> and the text "15.0 + 27.0 = 42".
\<close>

theorem calculate_15_plus_27:
  "process_input pw ''calculate 15 plus 27'' =
     Inr \<lparr>o_input = ''calculate 15 plus 27'',
          o_intent_analysis =
            \<lparr>c_intent = ''calculate'', c_confidence = 9 / 10,
          c_extracted_info = [(''operation'', Str ''add''), (''numbers'', StrList [''15'', ''27''])],
          c_raw_input = ''calculate 15 plus 27'', c_detection_method = ''pattern''\<rparr>,
          o_missing_info = [], o_action_taken = ''call_api'',
          o_result =
            \<lparr>x_type = ''api_response'', x_response = None, x_missing_fields = None,
            x_intent = None, x_endpoint = Some ''calculator'',
            x_result = Some ''15.0 + 27.0 = 42'', x_status = Some ''success'',
            x_error_type = None,
            x_data = Some [(''operation'', Str ''add''), (''numbers'', StrList [''15'', ''27''])]\<rparr>\<rparr>"
proof -
  have p: "parse_intent ''calculate 15 plus 27'' =
      Inr \<lparr>c_intent = ''calculate'', c_confidence = 9 / 10,
          c_extracted_info = [(''operation'', Str ''add''), (''numbers'', StrList [''15'', ''27''])],
          c_raw_input = ''calculate 15 plus 27'', c_detection_method = ''pattern''\<rparr>"
    by code_simp
  have m: "check_missing_info ''calculate'' [(''operation'', Str ''add''), (''numbers'', StrList [''15'', ''27''])] = []"
    by code_simp
  have d: "decide_action ''calculate'' [] [(''operation'', Str ''add''), (''numbers'', StrList [''15'', ''27''])] =
      (CALL_API,
       \<lparr>a_missing_fields = None, a_intent = Some ''calculate'', a_message = None,
         a_endpoint = Some ''calculator_api'',
         a_data = Some [(''operation'', Str ''add''), (''numbers'', StrList [''15'', ''27''])]\<rparr>)"
    by code_simp
  have s: "\<not> starts_with ''Error:'' ''15.0 + 27.0 = 42''" by code_simp
  have "calculate_result pw [(''operation'', Str ''add''), (''numbers'', StrList [''15'', ''27''])] = Inr ''15.0 + 27.0 = 42''"
    using calculate_15_27[of pw] by (simp only: request_def)
  then have x: "call_calculator_api pw [(''operation'', Str ''add''), (''numbers'', StrList [''15'', ''27''])] =
          \<lparr>x_type = ''api_response'', x_response = None, x_missing_fields = None,
            x_intent = None, x_endpoint = Some ''calculator'',
            x_result = Some ''15.0 + 27.0 = 42'', x_status = Some ''success'',
            x_error_type = None,
            x_data = Some [(''operation'', Str ''add''), (''numbers'', StrList [''15'', ''27''])]\<rparr>"
    unfolding call_calculator_api_def by (simp add: s api_response_def)
  have e: "execute_action pw CALL_API
       \<lparr>a_missing_fields = None, a_intent = Some ''calculate'', a_message = None,
         a_endpoint = Some ''calculator_api'',
         a_data = Some [(''operation'', Str ''add''), (''numbers'', StrList [''15'', ''27''])]\<rparr> =
      Inr (call_calculator_api pw [(''operation'', Str ''add''), (''numbers'', StrList [''15'', ''27''])])"
    by (simp add: execute_action_def key_of_def call_api_def)
  show ?thesis
    unfolding process_input_def p by (simp add: m d e x Let_def)
qed

end
